theory Spec2Isabelle
  imports Main
begin

section \<open>The abstract syntax tree (nodes.py)\<close>

text \<open>
  One constructor per node class of nodes.py, with the attributes in the order of the
  class's constructor. A number literal is an integer here: float literals, and every
  operation whose result is a host float, lie outside the modelled fragment (see
  \<open>Unmodelled\<close> below). The nodes for \<open>take\<close>, \<open>use\<close> and the \<open>&&\<close>
  commands, which only talk to the terminal and the file system, are left out.
\<close>

datatype node =
    NumberNode int
  | StringNode string
  | BoolNode bool
  | NoneNode
  | IdentifierNode string
  | AssignNode string node
  | BinOpNode node string node
  | UnaryOpNode string node
  | SayNode node "string list"
  | MethodCallNode node string "node list"
  | IfNode node node "node option"
  | WhileNode node node
  | ForRangeNode string node node "node option" bool node
  | ForEachNode string node node
  | FunctionDefNode string "string list" node "string option"
  | FunctionCallNode string "node list"
  | ReturnNode node
  | BlockNode "node list"
  | ListNode "node list"
  | IndexGetNode node node
  | IndexSetNode node node node
  | LambdaNode "string list" node
  | BreakNode
  | ContinueNode
  | FStringNode "(string + node) list"
  | CompoundAssignNode string string node
  | ObjectLiteralNode "(node \<times> node) list"

section \<open>Runtime values, environments and the store (evaluator.py)\<close>

text \<open>
  Python's \<open>None\<close>, \<open>bool\<close>, \<open>int\<close> and \<open>str\<close> are immutable and are values.
  Lists, dicts, \<open>EushaFunction\<close> and \<open>EushaLambda\<close> objects have identity and (the first
  two) are mutated in place, so a value of these kinds is a reference \<open>VRef a\<close> into the
  heap. An \<open>Environment\<close> object is likewise shared (a closure keeps the frame it was
  made in), so frames live in a store of their own and are named by their index there.
\<close>

datatype val = VNone | VBool bool | VInt int | VStr string | VRef nat

datatype obj =
    OList "val list"
  | ODict "(val \<times> val) list"
  | EushaFunction string "string list" node nat "string option"
  | EushaLambda "string list" node nat

record Environment =
  vars :: "(string \<times> val) list"
  parent :: "nat option"

record state =
  envs :: "Environment list"
  heap :: "obj list"
  stdout :: string

text \<open>
  What a Python call can end in besides a value: \<open>RuntimeError\<close> (the source's \<open>RuntimeError_\<close>; every raise site of
  the evaluator passes the message only, so line and column are 0 and the hint is empty),
  the three control signals, and a host exception that the evaluator did not wrap.
  \<open>Unmodelled\<close> marks a step whose result this model does not describe (a float, a
  host string routine); it is never caught.
\<close>

datatype host_error =
  TypeError | ZeroDivisionError | ValueError | IndexError | KeyError | DictChanged

datatype message = Text string | HostText string host_error

datatype exc =
    RuntimeError message
  | ReturnSignal val
  | BreakSignal
  | ContinueSignal
  | HostException host_error
  | Unmodelled

type_synonym 'a comp = "state \<Rightarrow> ((exc + 'a) \<times> state) option"

definition ok :: "'a \<Rightarrow> 'a comp" where
  "ok v = (\<lambda>st. Some (Inr v, st))"

definition throw :: "exc \<Rightarrow> 'a comp" where
  "throw e = (\<lambda>st. Some (Inl e, st))"

definition bnd :: "'a comp \<Rightarrow> ('a \<Rightarrow> 'b comp) \<Rightarrow> 'b comp" where
  "bnd m f = (\<lambda>st. case m st of
       None \<Rightarrow> None
     | Some (Inl e, st') \<Rightarrow> Some (Inl e, st')
     | Some (Inr v, st') \<Rightarrow> f v st')"

definition catch :: "'a comp \<Rightarrow> (exc \<Rightarrow> 'a comp) \<Rightarrow> 'a comp" where
  "catch m h = (\<lambda>st. case m st of
       None \<Rightarrow> None
     | Some (Inl e, st') \<Rightarrow> h e st'
     | Some (Inr v, st') \<Rightarrow> Some (Inr v, st'))"

definition lift_opt :: "'a option \<Rightarrow> 'a comp" where
  "lift_opt x = (\<lambda>st. case x of None \<Rightarrow> None | Some v \<Rightarrow> Some (Inr v, st))"

subsection \<open>class Environment\<close>

primrec get_chain :: "nat \<Rightarrow> Environment list \<Rightarrow> nat \<Rightarrow> string \<Rightarrow> val option" where
  "get_chain 0 es a name = None"
| "get_chain (Suc k) es a name =
     (if a < length es then
        (case map_of (vars (es ! a)) name of
           Some v \<Rightarrow> Some v
         | None \<Rightarrow> (case parent (es ! a) of
                      None \<Rightarrow> None
                    | Some p \<Rightarrow> get_chain k es p name))
      else None)"

definition env_lookup :: "state \<Rightarrow> nat \<Rightarrow> string \<Rightarrow> val option" where
  "env_lookup st a name = get_chain (length (envs st)) (envs st) a name"

definition env_get :: "nat \<Rightarrow> string \<Rightarrow> val comp" where
  "env_get a name = (\<lambda>st. case env_lookup st a name of
       Some v \<Rightarrow> Some (Inr v, st)
     | None \<Rightarrow> Some (Inl (RuntimeError (Text (''Undefined variable '' @ [CHR 0x27] @ name @ [CHR 0x27]))), st))"

definition upd_var :: "string \<Rightarrow> val \<Rightarrow> (string \<times> val) list \<Rightarrow> (string \<times> val) list" where
  "upd_var name v vs =
     (if name \<in> fst ` set vs then map (\<lambda>(k, w). if k = name then (k, v) else (k, w)) vs
      else vs @ [(name, v)])"

definition env_set :: "nat \<Rightarrow> string \<Rightarrow> val \<Rightarrow> unit comp" where
  "env_set a name v = (\<lambda>st.
     Some (Inr (), st\<lparr>envs := (envs st)[a := (envs st ! a)\<lparr>vars := upd_var name v (vars (envs st ! a))\<rparr>]\<rparr>))"

definition env_assign :: "nat \<Rightarrow> string \<Rightarrow> val \<Rightarrow> unit comp" where
  "env_assign a name v = env_set a name v"

definition new_Environment :: "nat option \<Rightarrow> nat comp" where
  "new_Environment p = (\<lambda>st.
     Some (Inr (length (envs st)), st\<lparr>envs := envs st @ [\<lparr>vars = [], parent = p\<rparr>]\<rparr>))"

definition alloc :: "obj \<Rightarrow> val comp" where
  "alloc ob = (\<lambda>st. Some (Inr (VRef (length (heap st))), st\<lparr>heap := heap st @ [ob]\<rparr>))"

definition obj_at :: "state \<Rightarrow> nat \<Rightarrow> obj option" where
  "obj_at st a = (if a < length (heap st) then Some (heap st ! a) else None)"

definition put_obj :: "nat \<Rightarrow> obj \<Rightarrow> unit comp" where
  "put_obj a ob = (\<lambda>st. Some (Inr (), st\<lparr>heap := (heap st)[a := ob]\<rparr>))"

section \<open>The host's operations on values\<close>

text \<open>
  The evaluator leans on Python's own \<open>bool()\<close>, \<open>str()\<close>, \<open>==\<close>, \<open>+\<close> and so
  on. This section writes out what those do on the values above. A string is a list of
  characters, each standing for one code point below 256.
\<close>

definition heap_at :: "obj list \<Rightarrow> nat \<Rightarrow> obj option" where
  "heap_at h a = (if a < length h then Some (h ! a) else None)"

text \<open>\<open>bool(v)\<close>: user objects without \<open>__bool__\<close> or \<open>__len__\<close> are true.\<close>

definition py_bool :: "state \<Rightarrow> val \<Rightarrow> bool" where
  "py_bool st v =
     (case v of
        VNone \<Rightarrow> False
      | VBool b \<Rightarrow> b
      | VInt i \<Rightarrow> i \<noteq> 0
      | VStr s \<Rightarrow> s \<noteq> []
      | VRef a \<Rightarrow> (case heap_at (heap st) a of
                    Some (OList xs) \<Rightarrow> xs \<noteq> []
                  | Some (ODict kvs) \<Rightarrow> kvs \<noteq> []
                  | _ \<Rightarrow> True))"

text \<open>\<open>bool\<close> is a subclass of \<open>int\<close>: \<open>True\<close> counts as 1 in arithmetic.\<close>

definition as_int :: "val \<Rightarrow> int option" where
  "as_int v = (case v of VBool b \<Rightarrow> Some (if b then 1 else 0) | VInt i \<Rightarrow> Some i | _ \<Rightarrow> None)"

definition type_name :: "state \<Rightarrow> val \<Rightarrow> string" where
  "type_name st v =
     (case v of
        VNone \<Rightarrow> ''NoneType''
      | VBool b \<Rightarrow> ''bool''
      | VInt i \<Rightarrow> ''int''
      | VStr s \<Rightarrow> ''str''
      | VRef a \<Rightarrow> (case heap_at (heap st) a of
                    Some (OList xs) \<Rightarrow> ''list''
                  | Some (ODict kvs) \<Rightarrow> ''dict''
                  | Some (EushaFunction n ps b e r) \<Rightarrow> ''EushaFunction''
                  | Some (EushaLambda ps b e) \<Rightarrow> ''EushaLambda''
                  | None \<Rightarrow> ''object''))"

subsection \<open>\<open>str()\<close> and \<open>repr()\<close>\<close>

fun digits10 :: "nat \<Rightarrow> string" where
  "digits10 n = (if n < 10 then [char_of (48 + n)] else digits10 (n div 10) @ [char_of (48 + n mod 10)])"

declare digits10.simps [simp del]

definition str_int :: "int \<Rightarrow> string" where
  "str_int i = (if i < 0 then CHR ''-'' # digits10 (nat (- i)) else digits10 (nat i))"

primrec join :: "string \<Rightarrow> string list \<Rightarrow> string" where
  "join sep [] = []"
| "join sep (x # xs) = (if xs = [] then x else x @ sep @ join sep xs)"

definition hex_digit :: "nat \<Rightarrow> char" where
  "hex_digit n = (if n < 10 then char_of (48 + n) else char_of (87 + n))"

text \<open>
  \<open>repr\<close> of a string: single quotes unless the string holds a single quote and no
  double quote; the quote, the backslash, tab, newline and carriage return are escaped,
  and so is every other unprintable code point (as \<open>\xhh\<close>).
\<close>

definition printable :: "char \<Rightarrow> bool" where
  "printable c = (let n = (of_char c :: nat) in (32 \<le> n \<and> n < 127) \<or> (161 \<le> n \<and> n \<noteq> 173))"

definition repr_char :: "char \<Rightarrow> char \<Rightarrow> string" where
  "repr_char q c =
     (if c = q \<or> c = CHR 0x5C then [CHR 0x5C, c]
      else if c = CHR 0x09 then [CHR 0x5C, CHR ''t'']
      else if c = CHR 0x0A then [CHR 0x5C, CHR ''n'']
      else if c = CHR 0x0D then [CHR 0x5C, CHR ''r'']
      else if printable c then [c]
      else [CHR 0x5C, CHR ''x'', hex_digit ((of_char c :: nat) div 16), hex_digit ((of_char c :: nat) mod 16)])"

definition repr_str :: "string \<Rightarrow> string" where
  "repr_str s =
     (let q = (if CHR 0x27 \<in> set s \<and> CHR 0x22 \<notin> set s then CHR 0x22 else CHR 0x27)
      in [q] @ concat (map (repr_char q) s) @ [q])"

text \<open>
  \<open>repr\<close> of a container renders its elements with \<open>repr\<close> and prints \<open>[...]\<close> or
  \<open>{...}\<close> for a container met again inside itself. \<open>seen\<close> holds the containers being
  rendered; each nesting adds one, so a fuel of one more than the heap's size is never
  used up.
\<close>

primrec repr_fuel :: "nat \<Rightarrow> obj list \<Rightarrow> nat list \<Rightarrow> val \<Rightarrow> string" where
  "repr_fuel 0 h seen v = ''...''"
| "repr_fuel (Suc k) h seen v =
     (case v of
        VNone \<Rightarrow> ''None''
      | VBool b \<Rightarrow> (if b then ''True'' else ''False'')
      | VInt i \<Rightarrow> str_int i
      | VStr s \<Rightarrow> repr_str s
      | VRef a \<Rightarrow>
          (case heap_at h a of
             Some (OList xs) \<Rightarrow>
               (if a \<in> set seen then ''[...]''
                else ''['' @ join '', '' (map (repr_fuel k h (a # seen)) xs) @ '']'')
           | Some (ODict kvs) \<Rightarrow>
               (if a \<in> set seen then ''{...}''
                else ''{'' @ join '', ''
                       (map (\<lambda>kv. repr_fuel k h (a # seen) (fst kv) @ '': '' @ repr_fuel k h (a # seen) (snd kv)) kvs)
                     @ ''}'')
           | Some (EushaFunction name ps b e r) \<Rightarrow> ''<fn '' @ name @ ''>''
           | Some (EushaLambda ps b e) \<Rightarrow> ''<lambda ('' @ join '', '' ps @ '')>''
           | None \<Rightarrow> ''...''))"

definition py_repr :: "state \<Rightarrow> val \<Rightarrow> string" where
  "py_repr st v = repr_fuel (Suc (length (heap st))) (heap st) [] v"

definition py_str :: "state \<Rightarrow> val \<Rightarrow> string" where
  "py_str st v = (case v of VStr s \<Rightarrow> s | _ \<Rightarrow> py_repr st v)"

subsection \<open>\<open>==\<close>, hashing and ordering\<close>

text \<open>
  \<open>a == b\<close>. Numbers compare by value (\<open>True == 1\<close>), strings by content, lists
  element by element, dicts as sets of entries, and an object without \<open>__eq__\<close> by
  identity. Inside a container the host tries identity before \<open>==\<close>. The fuel bounds
  the nesting that is followed; \<open>None\<close> is a comparison that did not finish.
\<close>

definition key_eq :: "val \<Rightarrow> val \<Rightarrow> bool" where
  "key_eq x y = (case (as_int x, as_int y) of (Some i, Some j) \<Rightarrow> i = j | _ \<Rightarrow> x = y)"

primrec all_opt :: "bool option list \<Rightarrow> bool option" where
  "all_opt [] = Some True"
| "all_opt (b # bs) = (case b of None \<Rightarrow> None | Some False \<Rightarrow> Some False | Some True \<Rightarrow> all_opt bs)"

primrec py_eq :: "nat \<Rightarrow> obj list \<Rightarrow> val \<Rightarrow> val \<Rightarrow> bool option" where
  "py_eq 0 h x y = None"
| "py_eq (Suc k) h x y =
     (if x = y then Some True
      else case (as_int x, as_int y) of
        (Some i, Some j) \<Rightarrow> Some (i = j)
      | _ \<Rightarrow>
        (case (x, y) of
           (VRef a, VRef b) \<Rightarrow>
             (case (heap_at h a, heap_at h b) of
                (Some (OList xs), Some (OList ys)) \<Rightarrow>
                  (if length xs \<noteq> length ys then Some False
                   else all_opt (map (\<lambda>p. py_eq k h (fst p) (snd p)) (zip xs ys)))
              | (Some (ODict kvs), Some (ODict kws)) \<Rightarrow>
                  (if length kvs \<noteq> length kws then Some False
                   else all_opt (map (\<lambda>kv. case find (\<lambda>kw. key_eq (fst kw) (fst kv)) kws of
                                               None \<Rightarrow> Some False
                                             | Some kw \<Rightarrow> py_eq k h (snd kv) (snd kw)) kvs))
              | _ \<Rightarrow> Some False)
         | _ \<Rightarrow> Some False))"

text \<open>Lists and dicts are unhashable; everything else can be a dict key.\<close>

definition hashable :: "state \<Rightarrow> val \<Rightarrow> bool" where
  "hashable st v =
     (case v of
        VRef a \<Rightarrow> (case heap_at (heap st) a of
                    Some (OList xs) \<Rightarrow> False
                  | Some (ODict kvs) \<Rightarrow> False
                  | _ \<Rightarrow> True)
      | _ \<Rightarrow> True)"

definition dict_get :: "(val \<times> val) list \<Rightarrow> val \<Rightarrow> val option" where
  "dict_get kvs k = map_option snd (find (\<lambda>kv. key_eq (fst kv) k) kvs)"

text \<open>\<open>d[k] = v\<close> keeps the position and the key object of an entry that is already there.\<close>

definition dict_put :: "(val \<times> val) list \<Rightarrow> val \<Rightarrow> val \<Rightarrow> (val \<times> val) list" where
  "dict_put kvs k v =
     (if dict_get kvs k = None then kvs @ [(k, v)]
      else map (\<lambda>kv. if key_eq (fst kv) k then (fst kv, v) else kv) kvs)"

fun str_less :: "string \<Rightarrow> string \<Rightarrow> bool" where
  "str_less [] [] = False"
| "str_less [] (d # t) = True"
| "str_less (c # s) [] = False"
| "str_less (c # s) (d # t) =
     (if (of_char c :: nat) < of_char d then True
      else if (of_char d :: nat) < of_char c then False
      else str_less s t)"

text \<open>
  \<open>a < b\<close>: defined between two numbers and between two strings. Ordering two lists
  is left unmodelled; every other pairing is a \<open>TypeError\<close>.
\<close>

definition py_less :: "state \<Rightarrow> val \<Rightarrow> val \<Rightarrow> exc + bool" where
  "py_less st x y =
     (case (as_int x, as_int y) of
        (Some i, Some j) \<Rightarrow> Inr (i < j)
      | _ \<Rightarrow>
        (case (x, y) of
           (VStr s, VStr t) \<Rightarrow> Inr (str_less s t)
         | (VRef a, VRef b) \<Rightarrow>
             (case (heap_at (heap st) a, heap_at (heap st) b) of
                (Some (OList xs), Some (OList ys)) \<Rightarrow> Inl Unmodelled
              | _ \<Rightarrow> Inl (HostException TypeError))
         | _ \<Rightarrow> Inl (HostException TypeError)))"

definition py_le :: "state \<Rightarrow> val \<Rightarrow> val \<Rightarrow> exc + bool" where
  "py_le st x y =
     (case (as_int x, as_int y) of
        (Some i, Some j) \<Rightarrow> Inr (i \<le> j)
      | _ \<Rightarrow>
        (case (x, y) of
           (VStr s, VStr t) \<Rightarrow> Inr (\<not> str_less t s)
         | (VRef a, VRef b) \<Rightarrow>
             (case (heap_at (heap st) a, heap_at (heap st) b) of
                (Some (OList xs), Some (OList ys)) \<Rightarrow> Inl Unmodelled
              | _ \<Rightarrow> Inl (HostException TypeError))
         | _ \<Rightarrow> Inl (HostException TypeError)))"

definition lift_sum :: "exc + 'a \<Rightarrow> 'a comp" where
  "lift_sum r = (\<lambda>st. Some (r, st))"

subsection \<open>\<open>int()\<close>, indexing and \<open>range\<close>\<close>

text \<open>
  \<open>int(v)\<close>: a number converts; \<open>None\<close> and the heap objects are a \<open>TypeError\<close>.
  Parsing a string as a number is left unmodelled.
\<close>

definition py_int :: "val \<Rightarrow> exc + int" where
  "py_int v =
     (case v of
        VBool b \<Rightarrow> Inr (if b then 1 else 0)
      | VInt i \<Rightarrow> Inr i
      | VStr s \<Rightarrow> Inl Unmodelled
      | _ \<Rightarrow> Inl (HostException TypeError))"

text \<open>\<open>xs[i]\<close> on a sequence: a negative index counts from the end.\<close>

definition seq_index :: "'a list \<Rightarrow> int \<Rightarrow> nat option" where
  "seq_index xs i =
     (let n = int (length xs); j = (if i < 0 then n + i else i)
      in if 0 \<le> j \<and> j < n then Some (nat j) else None)"

text \<open>
  \<open>range(start, stop, step)\<close> for a step other than 0: the host computes the length
  first and the members from it.
\<close>

definition py_range :: "int \<Rightarrow> int \<Rightarrow> int \<Rightarrow> int list" where
  "py_range start stop step =
     (let len = (if 0 < step then (if start < stop then (stop - start - 1) div step + 1 else 0)
                 else (if stop < start then (start - stop - 1) div (- step) + 1 else 0))
      in map (\<lambda>k. start + int k * step) [0 ..< nat len])"

subsection \<open>Arithmetic\<close>

text \<open>
  \<open>left + right\<close> once neither side is a string: numbers add, two lists concatenate into
  a new list, anything else is a \<open>TypeError\<close>.
\<close>

definition py_add :: "val \<Rightarrow> val \<Rightarrow> val comp" where
  "py_add x y = (\<lambda>st.
     case (as_int x, as_int y) of
       (Some i, Some j) \<Rightarrow> ok (VInt (i + j)) st
     | _ \<Rightarrow>
       (case (x, y) of
          (VRef a, VRef b) \<Rightarrow>
            (case (obj_at st a, obj_at st b) of
               (Some (OList xs), Some (OList ys)) \<Rightarrow> alloc (OList (xs @ ys)) st
             | _ \<Rightarrow> throw (HostException TypeError) st)
        | _ \<Rightarrow> throw (HostException TypeError) st))"

definition py_sub :: "val \<Rightarrow> val \<Rightarrow> val comp" where
  "py_sub x y =
     (case (as_int x, as_int y) of
        (Some i, Some j) \<Rightarrow> ok (VInt (i - j))
      | _ \<Rightarrow> throw (HostException TypeError))"

text \<open>\<open>*\<close> multiplies numbers and repeats a string or a list a number of times.\<close>

definition py_mul :: "val \<Rightarrow> val \<Rightarrow> val comp" where
  "py_mul x y = (\<lambda>st.
     case (as_int x, as_int y) of
       (Some i, Some j) \<Rightarrow> ok (VInt (i * j)) st
     | (None, Some j) \<Rightarrow>
         (case x of
            VStr s \<Rightarrow> ok (VStr (concat (replicate (nat j) s))) st
          | VRef a \<Rightarrow> (case obj_at st a of
                         Some (OList xs) \<Rightarrow> alloc (OList (concat (replicate (nat j) xs))) st
                       | _ \<Rightarrow> throw (HostException TypeError) st)
          | _ \<Rightarrow> throw (HostException TypeError) st)
     | (Some i, None) \<Rightarrow>
         (case y of
            VStr s \<Rightarrow> ok (VStr (concat (replicate (nat i) s))) st
          | VRef a \<Rightarrow> (case obj_at st a of
                         Some (OList xs) \<Rightarrow> alloc (OList (concat (replicate (nat i) xs))) st
                       | _ \<Rightarrow> throw (HostException TypeError) st)
          | _ \<Rightarrow> throw (HostException TypeError) st)
     | _ \<Rightarrow> throw (HostException TypeError) st)"

text \<open>\<open>right == 0\<close>, the test that guards \<open>/\<close> and \<open>/=\<close>: true of \<open>0\<close> and of \<open>False\<close>.\<close>

definition is_zero :: "val \<Rightarrow> bool" where
  "is_zero v = (as_int v = Some 0)"

text \<open>\<open>left / right\<close> for a right side that is not zero: two numbers give a float.\<close>

definition py_truediv :: "val \<Rightarrow> val \<Rightarrow> val comp" where
  "py_truediv x y =
     (case (as_int x, as_int y) of
        (Some i, Some j) \<Rightarrow> throw Unmodelled
      | _ \<Rightarrow> throw (HostException TypeError))"

text \<open>
  \<open>left % right\<close>: the host's integer modulo (the sign follows the divisor), which
  raises \<open>ZeroDivisionError\<close> on a zero divisor. With a string on the left it is
  printf-style formatting, left unmodelled.
\<close>

definition py_mod :: "val \<Rightarrow> val \<Rightarrow> val comp" where
  "py_mod x y =
     (case (as_int x, as_int y) of
        (Some i, Some j) \<Rightarrow> (if j = 0 then throw (HostException ZeroDivisionError) else ok (VInt (i mod j)))
      | _ \<Rightarrow>
        (case x of
           VStr s \<Rightarrow> throw Unmodelled
         | _ \<Rightarrow> throw (HostException TypeError)))"

definition py_pow :: "val \<Rightarrow> val \<Rightarrow> val comp" where
  "py_pow x y =
     (case (as_int x, as_int y) of
        (Some i, Some j) \<Rightarrow>
          (if 0 \<le> j then ok (VInt (i ^ nat j))
           else if i = 0 then throw (HostException ZeroDivisionError)
           else throw Unmodelled)
      | _ \<Rightarrow> throw (HostException TypeError))"

definition py_neg :: "val \<Rightarrow> val comp" where
  "py_neg x = (case as_int x of Some i \<Rightarrow> ok (VInt (- i)) | None \<Rightarrow> throw (HostException TypeError))"

section \<open>The evaluator (class Evaluator)\<close>

text \<open>
  Each \<open>eval_X\<close> method is a definition of the same name. The methods call
  \<open>self.eval\<close> on sub-nodes; here that is the parameter \<open>ev\<close>, and \<open>eval\<close> at the end
  ties the knot with a fuel that bounds the depth of the recursion and the number of
  iterations of a loop. \<open>None\<close> is an evaluation that did not finish within the fuel.
\<close>

type_synonym evaluator = "node \<Rightarrow> nat \<Rightarrow> val comp"

subsection \<open>\<open>_format_value\<close>\<close>

primrec format_value :: "nat \<Rightarrow> state \<Rightarrow> val \<Rightarrow> string option" where
  "format_value 0 st v = None"
| "format_value (Suc k) st v =
     (case v of
        VNone \<Rightarrow> Some ''none''
      | VBool b \<Rightarrow> Some (if b then ''true'' else ''false'')
      | VRef a \<Rightarrow>
          (case heap_at (heap st) a of
             Some (OList xs) \<Rightarrow>
               map_option (\<lambda>items. ''['' @ join '', '' items @ '']'') (those (map (format_value k st) xs))
           | Some (ODict kvs) \<Rightarrow>
               map_option (\<lambda>items. ''{'' @ join '', '' items @ ''}'')
                 (those (map (\<lambda>kv. case (format_value k st (fst kv), format_value k st (snd kv)) of
                                       (Some a, Some b) \<Rightarrow> Some (a @ '': '' @ b)
                                     | _ \<Rightarrow> None) kvs))
           | _ \<Rightarrow> Some (py_str st v))
      | _ \<Rightarrow> Some (py_str st v))"

definition print :: "string \<Rightarrow> unit comp" where
  "print s = (\<lambda>st. Some (Inr (), st\<lparr>stdout := stdout st @ s\<rparr>))"

subsection \<open>Literals, lists, objects, f-strings\<close>

primrec eval_all :: "evaluator \<Rightarrow> node list \<Rightarrow> nat \<Rightarrow> val list comp" where
  "eval_all ev [] env = ok []"
| "eval_all ev (x # xs) env = bnd (ev x env) (\<lambda>v. bnd (eval_all ev xs env) (\<lambda>vs. ok (v # vs)))"

definition eval_ListNode :: "evaluator \<Rightarrow> node list \<Rightarrow> nat \<Rightarrow> val comp" where
  "eval_ListNode ev elements env = bnd (eval_all ev elements env) (\<lambda>vs. alloc (OList vs))"

text \<open>\<open>obj[key] = val\<close> on a dict: an unhashable key is a \<open>TypeError\<close>.\<close>

definition dict_store :: "val \<Rightarrow> val \<Rightarrow> val \<Rightarrow> unit comp" where
  "dict_store d key v = (\<lambda>st.
     case d of
       VRef a \<Rightarrow>
         (case obj_at st a of
            Some (ODict kvs) \<Rightarrow>
              (if hashable st key then put_obj a (ODict (dict_put kvs key v)) st
               else throw (HostException TypeError) st)
          | _ \<Rightarrow> throw (HostException TypeError) st)
     | _ \<Rightarrow> throw (HostException TypeError) st)"

primrec object_pairs :: "evaluator \<Rightarrow> (node \<times> node) list \<Rightarrow> nat \<Rightarrow> val \<Rightarrow> unit comp" where
  "object_pairs ev [] env d = ok ()"
| "object_pairs ev (p # ps) env d =
     bnd (ev (fst p) env) (\<lambda>key.
     bnd (ev (snd p) env) (\<lambda>v.
     bnd (dict_store d key v) (\<lambda>u. object_pairs ev ps env d)))"

definition eval_ObjectLiteralNode :: "evaluator \<Rightarrow> (node \<times> node) list \<Rightarrow> nat \<Rightarrow> val comp" where
  "eval_ObjectLiteralNode ev pairs env =
     bnd (alloc (ODict [])) (\<lambda>d. bnd (object_pairs ev pairs env d) (\<lambda>u. ok d))"

primrec fstring_parts :: "nat \<Rightarrow> evaluator \<Rightarrow> (string + node) list \<Rightarrow> nat \<Rightarrow> string comp" where
  "fstring_parts k ev [] env = ok []"
| "fstring_parts k ev (p # ps) env =
     (case p of
        Inl s \<Rightarrow> bnd (fstring_parts k ev ps env) (\<lambda>r. ok (s @ r))
      | Inr e \<Rightarrow>
          bnd (ev e env) (\<lambda>v.
          bnd (\<lambda>st. lift_opt (format_value k st v) st) (\<lambda>s.
          bnd (fstring_parts k ev ps env) (\<lambda>r. ok (s @ r)))))"

definition eval_FStringNode :: "nat \<Rightarrow> evaluator \<Rightarrow> (string + node) list \<Rightarrow> nat \<Rightarrow> val comp" where
  "eval_FStringNode k ev parts env = bnd (fstring_parts k ev parts env) (\<lambda>s. ok (VStr s))"

subsection \<open>Indexing\<close>

text \<open>
  \<open>target[index]\<close> on a dict uses the index as the key; on anything else
  \<open>int(index)\<close> is computed first and the target is subscripted with it.
\<close>

definition subscript :: "val \<Rightarrow> val \<Rightarrow> val comp" where
  "subscript target index = (\<lambda>st.
     case (case target of VRef a \<Rightarrow> obj_at st a | _ \<Rightarrow> None) of
       Some (ODict kvs) \<Rightarrow>
         (if hashable st index then
            (case dict_get kvs index of
               Some v \<Rightarrow> ok v st
             | None \<Rightarrow> throw (HostException KeyError) st)
          else throw (HostException TypeError) st)
     | ob \<Rightarrow>
         (case py_int index of
            Inl e \<Rightarrow> throw e st
          | Inr i \<Rightarrow>
              (case ob of
                 Some (OList xs) \<Rightarrow>
                   (case seq_index xs i of
                      Some j \<Rightarrow> ok (xs ! j) st
                    | None \<Rightarrow> throw (HostException IndexError) st)
               | _ \<Rightarrow>
                   (case target of
                      VStr s \<Rightarrow>
                        (case seq_index s i of
                           Some j \<Rightarrow> ok (VStr [s ! j]) st
                         | None \<Rightarrow> throw (HostException IndexError) st)
                    | _ \<Rightarrow> throw (HostException TypeError) st))))"

definition index_error :: "string \<Rightarrow> exc \<Rightarrow> val comp" where
  "index_error prefix e =
     (case e of
        HostException IndexError \<Rightarrow> throw (RuntimeError (HostText prefix IndexError))
      | HostException TypeError \<Rightarrow> throw (RuntimeError (HostText prefix TypeError))
      | HostException KeyError \<Rightarrow> throw (RuntimeError (HostText prefix KeyError))
      | _ \<Rightarrow> throw e)"

definition eval_IndexGetNode :: "evaluator \<Rightarrow> node \<Rightarrow> node \<Rightarrow> nat \<Rightarrow> val comp" where
  "eval_IndexGetNode ev target index env =
     bnd (ev target env) (\<lambda>t.
     bnd (ev index env) (\<lambda>i.
     catch (subscript t i) (index_error ''Index error: '')))"

definition store_subscript :: "val \<Rightarrow> val \<Rightarrow> val \<Rightarrow> val comp" where
  "store_subscript target index v = (\<lambda>st.
     case (case target of VRef a \<Rightarrow> obj_at st a | _ \<Rightarrow> None) of
       Some (ODict kvs) \<Rightarrow> bnd (dict_store target index v) (\<lambda>u. ok v) st
     | ob \<Rightarrow>
         (case py_int index of
            Inl e \<Rightarrow> throw e st
          | Inr i \<Rightarrow>
              (case (target, ob) of
                 (VRef a, Some (OList xs)) \<Rightarrow>
                   (case seq_index xs i of
                      Some j \<Rightarrow> bnd (put_obj a (OList (xs[j := v]))) (\<lambda>u. ok v) st
                    | None \<Rightarrow> throw (HostException IndexError) st)
               | _ \<Rightarrow> throw (HostException TypeError) st)))"

definition eval_IndexSetNode :: "evaluator \<Rightarrow> node \<Rightarrow> node \<Rightarrow> node \<Rightarrow> nat \<Rightarrow> val comp" where
  "eval_IndexSetNode ev target index valnode env =
     bnd (ev target env) (\<lambda>t.
     bnd (ev index env) (\<lambda>i.
     bnd (ev valnode env) (\<lambda>v.
     catch (store_subscript t i v) (index_error ''Index assignment error: ''))))"

subsection \<open>Variables and operators\<close>

definition eval_IdentifierNode :: "string \<Rightarrow> nat \<Rightarrow> val comp" where
  "eval_IdentifierNode name env = env_get env name"

definition eval_AssignNode :: "evaluator \<Rightarrow> string \<Rightarrow> node \<Rightarrow> nat \<Rightarrow> val comp" where
  "eval_AssignNode ev name valnode env =
     bnd (ev valnode env) (\<lambda>v. bnd (env_assign env name v) (\<lambda>u. ok v))"

text \<open>\<open>except TypeError as e: raise RuntimeError_(str(e))\<close>\<close>

definition wrap_TypeError :: "exc \<Rightarrow> val comp" where
  "wrap_TypeError e =
     (case e of
        HostException TypeError \<Rightarrow> throw (RuntimeError (HostText [] TypeError))
      | _ \<Rightarrow> throw e)"

text \<open>The branch for \<open>+\<close>, shared by \<open>eval_BinOpNode\<close> and \<open>eval_CompoundAssignNode\<close>.\<close>

definition plus_op :: "val \<Rightarrow> val \<Rightarrow> val comp" where
  "plus_op left right = (\<lambda>st.
     if (case left of VStr s \<Rightarrow> True | _ \<Rightarrow> False) \<or> (case right of VStr s \<Rightarrow> True | _ \<Rightarrow> False)
     then ok (VStr (py_str st left @ py_str st right)) st
     else py_add left right st)"

definition div_op :: "val \<Rightarrow> val \<Rightarrow> val comp" where
  "div_op left right =
     (if is_zero right then throw (RuntimeError (Text ''Division by zero''))
      else py_truediv left right)"

definition eval_CompoundAssignNode :: "evaluator \<Rightarrow> string \<Rightarrow> string \<Rightarrow> node \<Rightarrow> nat \<Rightarrow> val comp" where
  "eval_CompoundAssignNode ev name op valnode env =
     bnd (env_get env name) (\<lambda>current.
     bnd (ev valnode env) (\<lambda>right.
     bnd (catch
            (if op = ''+'' then plus_op current right
             else if op = ''-'' then py_sub current right
             else if op = ''*'' then py_mul current right
             else if op = ''/'' then div_op current right
             else throw (RuntimeError (Text (''Unknown compound operator '' @ [CHR 0x27] @ op @ [CHR 0x27]))))
            wrap_TypeError) (\<lambda>result.
     bnd (env_assign env name result) (\<lambda>u. ok result))))"

definition compare_op :: "(state \<Rightarrow> (exc + bool)) \<Rightarrow> val comp" where
  "compare_op f = (\<lambda>st. case f st of Inl e \<Rightarrow> throw e st | Inr b \<Rightarrow> ok (VBool b) st)"

definition eq_op :: "nat \<Rightarrow> bool \<Rightarrow> val \<Rightarrow> val \<Rightarrow> val comp" where
  "eq_op k neg left right = (\<lambda>st.
     case py_eq k (heap st) left right of
       None \<Rightarrow> None
     | Some b \<Rightarrow> ok (VBool (if neg then \<not> b else b)) st)"

definition eval_BinOpNode :: "nat \<Rightarrow> evaluator \<Rightarrow> node \<Rightarrow> string \<Rightarrow> node \<Rightarrow> nat \<Rightarrow> val comp" where
  "eval_BinOpNode k ev leftnode op rightnode env =
     bnd (ev leftnode env) (\<lambda>left.
     bnd (ev rightnode env) (\<lambda>right.
     catch
       (if op = ''+'' then plus_op left right
        else if op = ''-'' then py_sub left right
        else if op = ''*'' then py_mul left right
        else if op = ''/'' then div_op left right
        else if op = ''%'' then py_mod left right
        else if op = ''**'' then py_pow left right
        else if op = ''=='' then eq_op k False left right
        else if op = ''!='' then eq_op k True left right
        else if op = ''<'' then compare_op (\<lambda>st. py_less st left right)
        else if op = ''>'' then compare_op (\<lambda>st. py_less st right left)
        else if op = ''<='' then compare_op (\<lambda>st. py_le st left right)
        else if op = ''>='' then compare_op (\<lambda>st. py_le st right left)
        else if op = ''and'' then (\<lambda>st. ok (VBool (py_bool st left \<and> py_bool st right)) st)
        else if op = ''or'' then (\<lambda>st. ok (VBool (py_bool st left \<or> py_bool st right)) st)
        else throw (RuntimeError (Text (''Unknown operator '' @ [CHR 0x27] @ op @ [CHR 0x27]))))
       wrap_TypeError))"

definition eval_UnaryOpNode :: "evaluator \<Rightarrow> string \<Rightarrow> node \<Rightarrow> nat \<Rightarrow> val comp" where
  "eval_UnaryOpNode ev op operand env =
     bnd (ev operand env) (\<lambda>v.
       if op = ''-'' then py_neg v
       else if op = ''not'' then (\<lambda>st. ok (VBool (\<not> py_bool st v)) st)
       else throw (RuntimeError (Text (''Unknown unary op '' @ [CHR 0x27] @ op @ [CHR 0x27]))))"

subsection \<open>\<open>say\<close>\<close>

primrec say_end :: "string list \<Rightarrow> string" where
  "say_end [] = []"
| "say_end (m # ms) =
     (if m = ''newl'' then [CHR 0x0A] else [])
     @ (if m = ''space'' then '' '' else [])
     @ (if m = ''tab'' then [CHR 0x09] else [])
     @ say_end ms"

definition eval_SayNode :: "nat \<Rightarrow> evaluator \<Rightarrow> node \<Rightarrow> string list \<Rightarrow> nat \<Rightarrow> val comp" where
  "eval_SayNode k ev expr modifiers env =
     bnd (ev expr env) (\<lambda>v.
     bnd (\<lambda>st. lift_opt (format_value k st v) st) (\<lambda>text.
     bnd (print (text @ say_end modifiers)) (\<lambda>u. ok VNone)))"

subsection \<open>\<open>_call_function\<close>\<close>

primrec set_params :: "nat \<Rightarrow> (string \<times> val) list \<Rightarrow> unit comp" where
  "set_params call_env [] = ok ()"
| "set_params call_env (pa # rest) =
     bnd (env_set call_env (fst pa) (snd pa)) (\<lambda>u. set_params call_env rest)"

definition return_value :: "exc \<Rightarrow> val comp" where
  "return_value e = (case e of ReturnSignal v \<Rightarrow> ok v | _ \<Rightarrow> throw e)"

definition call_function :: "evaluator \<Rightarrow> val \<Rightarrow> val list \<Rightarrow> val comp" where
  "call_function ev fn args = (\<lambda>st.
     case (case fn of VRef a \<Rightarrow> obj_at st a | _ \<Rightarrow> None) of
       Some (EushaLambda params body cenv) \<Rightarrow>
         (if length args \<noteq> length params then
            throw (RuntimeError (Text (''Lambda expects '' @ str_int (int (length params))
                                        @ '' args, got '' @ str_int (int (length args))))) st
          else
            bnd (new_Environment (Some cenv)) (\<lambda>call_env.
            bnd (set_params call_env (zip params args)) (\<lambda>u.
            ev body call_env)) st)
     | Some (EushaFunction name params body cenv rt) \<Rightarrow>
         (if length args \<noteq> length params then
            throw (RuntimeError (Text ([CHR 0x27] @ name @ [CHR 0x27] @ '' expects ''
                                        @ str_int (int (length params))
                                        @ '' args, got '' @ str_int (int (length args))))) st
          else
            bnd (new_Environment (Some cenv)) (\<lambda>call_env.
            bnd (set_params call_env (zip params args)) (\<lambda>u.
            catch (bnd (ev body call_env) (\<lambda>r. ok VNone)) return_value)) st)
     | _ \<Rightarrow> throw (RuntimeError (Text ''Value is not callable'')) st)"

subsection \<open>Method calls\<close>

definition is_sub :: "string \<Rightarrow> string \<Rightarrow> bool" where
  "is_sub sub s = list_ex (\<lambda>i. take (length sub) (drop i s) = sub) [0 ..< Suc (length s)]"

definition all_numbers :: "val list \<Rightarrow> bool" where
  "all_numbers xs = list_all (\<lambda>v. as_int v \<noteq> None) xs"

definition num :: "val \<Rightarrow> int" where
  "num v = (case as_int v of Some i \<Rightarrow> i | None \<Rightarrow> 0)"

text \<open>
  The loops of \<open>.filter\<close> and \<open>.map\<close> run over the list object itself, so they see
  what the callback appends to it: the loop reads element \<open>i\<close> from the heap each time.
\<close>

primrec filter_loop :: "nat \<Rightarrow> evaluator \<Rightarrow> val \<Rightarrow> nat \<Rightarrow> nat \<Rightarrow> nat \<Rightarrow> val comp" where
  "filter_loop 0 ev fn a i res = (\<lambda>st. None)"
| "filter_loop (Suc k) ev fn a i res = (\<lambda>st.
     case obj_at st a of
       Some (OList xs) \<Rightarrow>
         (if i < length xs then
            bnd (call_function ev fn [xs ! i]) (\<lambda>v st'.
              (if py_bool st' v then
                 (case obj_at st' res of
                    Some (OList rs) \<Rightarrow>
                      bnd (put_obj res (OList (rs @ [xs ! i]))) (\<lambda>u. filter_loop k ev fn a (Suc i) res) st'
                  | _ \<Rightarrow> None)
               else filter_loop k ev fn a (Suc i) res st')) st
          else ok (VRef res) st)
     | _ \<Rightarrow> ok (VRef res) st)"

primrec map_loop :: "nat \<Rightarrow> evaluator \<Rightarrow> val \<Rightarrow> nat \<Rightarrow> nat \<Rightarrow> val list \<Rightarrow> val comp" where
  "map_loop 0 ev fn a i acc = (\<lambda>st. None)"
| "map_loop (Suc k) ev fn a i acc = (\<lambda>st.
     case obj_at st a of
       Some (OList xs) \<Rightarrow>
         (if i < length xs then
            bnd (call_function ev fn [xs ! i]) (\<lambda>v. map_loop k ev fn a (Suc i) (acc @ [v])) st
          else alloc (OList acc) st)
     | _ \<Rightarrow> alloc (OList acc) st)"

definition dict_method :: "val \<Rightarrow> (val \<times> val) list \<Rightarrow> string \<Rightarrow> val list \<Rightarrow> val comp" where
  "dict_method obj kvs method args =
     (if method = ''keys'' then alloc (OList (map fst kvs))
      else if method = ''values'' then alloc (OList (map snd kvs))
      else if method = ''length'' then ok (VInt (int (length kvs)))
      else if method = ''has'' then
        (if length args \<noteq> 1 then throw (RuntimeError (Text ''.has() takes exactly 1 argument''))
         else (\<lambda>st. if hashable st (hd args) then ok (VBool (dict_get kvs (hd args) \<noteq> None)) st
                    else throw (HostException TypeError) st))
      else if dict_get kvs (VStr method) \<noteq> None \<and> args = [] then
        (case dict_get kvs (VStr method) of Some v \<Rightarrow> ok v | None \<Rightarrow> throw (HostException KeyError))
      else throw (RuntimeError (Text (''Unknown object method '' @ [CHR 0x27] @ ''.'' @ method @ ''()'' @ [CHR 0x27]))))"

text \<open>
  \<open>to_int\<close>, \<open>to_float\<close>, \<open>to_str\<close>: \<open>int(obj)\<close>, \<open>float(obj)\<close>, \<open>str(obj)\<close>, with a
  \<open>ValueError\<close> or \<open>TypeError\<close> turned into a runtime error. A float result is unmodelled.
\<close>

definition conversion :: "val \<Rightarrow> string \<Rightarrow> val comp" where
  "conversion obj method = (\<lambda>st.
     let failed = throw (RuntimeError (HostText (''Cannot convert '' @ py_repr st obj @ '' with .'' @ method @ ''(): '') TypeError))
     in if method = ''to_int'' then
          (case py_int obj of
             Inr i \<Rightarrow> ok (VInt i) st
           | Inl (HostException TypeError) \<Rightarrow> failed st
           | Inl e \<Rightarrow> throw e st)
        else if method = ''to_float'' then
          (case py_int obj of
             Inr i \<Rightarrow> throw Unmodelled st
           | Inl (HostException TypeError) \<Rightarrow> failed st
           | Inl e \<Rightarrow> throw e st)
        else ok (VStr (py_str st obj)) st)"

definition list_method :: "nat \<Rightarrow> evaluator \<Rightarrow> nat \<Rightarrow> val list \<Rightarrow> string \<Rightarrow> val list \<Rightarrow> val comp" where
  "list_method k ev a xs method args =
     (if method = ''push'' then
        (if length args \<noteq> 1 then throw (RuntimeError (Text ''.push() takes exactly 1 argument''))
         else bnd (put_obj a (OList (xs @ [hd args]))) (\<lambda>u. ok (VRef a)))
      else if method = ''pop'' then
        (if xs = [] then throw (RuntimeError (Text ''Cannot .pop() from an empty list''))
         else bnd (put_obj a (OList (butlast xs))) (\<lambda>u. ok (last xs)))
      else if method = ''sort'' then
        (if length xs \<le> 1 then ok (VRef a)
         else if all_numbers xs then bnd (put_obj a (OList (sort_key num xs))) (\<lambda>u. ok (VRef a))
         else throw Unmodelled)
      else if method = ''reverse'' then bnd (put_obj a (OList (rev xs))) (\<lambda>u. ok (VRef a))
      else if method = ''sum'' then
        (if all_numbers xs then ok (VInt (sum_list (map num xs)))
         else throw (HostException TypeError))
      else if method = ''max'' then
        (if xs = [] then throw (HostException ValueError)
         else if all_numbers xs then
           (case find (\<lambda>v. list_all (\<lambda>w. num w \<le> num v) xs) xs of Some v \<Rightarrow> ok v | None \<Rightarrow> throw Unmodelled)
         else throw Unmodelled)
      else if method = ''min'' then
        (if xs = [] then throw (HostException ValueError)
         else if all_numbers xs then
           (case find (\<lambda>v. list_all (\<lambda>w. num v \<le> num w) xs) xs of Some v \<Rightarrow> ok v | None \<Rightarrow> throw Unmodelled)
         else throw Unmodelled)
      else if method = ''length'' then ok (VInt (int (length xs)))
      else if method = ''filter'' then
        (if length args \<noteq> 1 then throw (RuntimeError (Text ''.filter() takes exactly 1 argument (a function)''))
         else bnd (alloc (OList [])) (\<lambda>r. case r of VRef res \<Rightarrow> filter_loop k ev (hd args) a 0 res | _ \<Rightarrow> throw Unmodelled))
      else if method = ''map'' then
        (if length args \<noteq> 1 then throw (RuntimeError (Text ''.map() takes exactly 1 argument (a function)''))
         else map_loop k ev (hd args) a 0 [])
      else throw (RuntimeError (Text (''Unknown list method '' @ [CHR 0x27] @ ''.'' @ method @ ''()'' @ [CHR 0x27]))))"

definition string_method :: "string \<Rightarrow> string \<Rightarrow> val list \<Rightarrow> val comp" where
  "string_method s method args =
     (if method = ''length'' then ok (VInt (int (length s)))
      else if method = ''upper'' then throw Unmodelled
      else if method = ''lower'' then throw Unmodelled
      else if method = ''trim'' then throw Unmodelled
      else if method = ''contains'' then
        (if length args \<noteq> 1 then throw (RuntimeError (Text ''.contains() takes exactly 1 argument''))
         else (case hd args of VStr sub \<Rightarrow> ok (VBool (is_sub sub s)) | _ \<Rightarrow> throw (HostException TypeError)))
      else if method = ''split'' then throw Unmodelled
      else if method = ''replace'' then
        (if length args \<noteq> 2 then throw (RuntimeError (Text ''.replace() takes exactly 2 arguments''))
         else throw Unmodelled)
      else throw (RuntimeError (Text (''Unknown string method '' @ [CHR 0x27] @ ''.'' @ method @ ''()'' @ [CHR 0x27]))))"

text \<open>
  The dispatch of \<open>eval_MethodCallNode\<close> on the receiver and arguments once evaluated:
  dict methods, then the conversions (for every receiver that is not a dict), then the
  list methods, then the string methods.
\<close>

definition call_method :: "nat \<Rightarrow> evaluator \<Rightarrow> val \<Rightarrow> string \<Rightarrow> val list \<Rightarrow> val comp" where
  "call_method k ev obj method args = (\<lambda>st.
     case (case obj of VRef a \<Rightarrow> obj_at st a | _ \<Rightarrow> None) of
       Some (ODict kvs) \<Rightarrow> dict_method obj kvs method args st
     | ob \<Rightarrow>
         (if method = ''to_int'' \<or> method = ''to_float'' \<or> method = ''to_str''
          then conversion obj method st
          else
            (case (obj, ob) of
               (VRef a, Some (OList xs)) \<Rightarrow> list_method k ev a xs method args st
             | _ \<Rightarrow>
               (case obj of
                  VStr s \<Rightarrow> string_method s method args st
                | _ \<Rightarrow> throw (RuntimeError (Text (''Unknown method '' @ [CHR 0x27] @ ''.'' @ method @ ''()'' @ [CHR 0x27]
                                                     @ '' on '' @ type_name st obj))) st))))"

definition eval_MethodCallNode :: "nat \<Rightarrow> evaluator \<Rightarrow> node \<Rightarrow> string \<Rightarrow> node list \<Rightarrow> nat \<Rightarrow> val comp" where
  "eval_MethodCallNode k ev objnode method argnodes env =
     bnd (ev objnode env) (\<lambda>obj.
     bnd (eval_all ev argnodes env) (\<lambda>args.
     call_method k ev obj method args))"

subsection \<open>Control flow\<close>

definition eval_IfNode :: "evaluator \<Rightarrow> node \<Rightarrow> node \<Rightarrow> node option \<Rightarrow> nat \<Rightarrow> val comp" where
  "eval_IfNode ev condition then_block else_block env =
     bnd (ev condition env) (\<lambda>c st.
       if py_bool st c then ev then_block env st
       else (case else_block of Some e \<Rightarrow> ev e env st | None \<Rightarrow> ok VNone st))"

text \<open>
  One run of a loop body inside \<open>try: ... except BreakSignal: break except ContinueSignal:
  continue except ReturnSignal: raise\<close>. \<open>again\<close> is the rest of the loop.
\<close>

definition loop_body :: "evaluator \<Rightarrow> node \<Rightarrow> nat \<Rightarrow> val comp \<Rightarrow> val comp" where
  "loop_body ev body env again = (\<lambda>st.
     case ev body env st of
       None \<Rightarrow> None
     | Some (Inl BreakSignal, st') \<Rightarrow> Some (Inr VNone, st')
     | Some (Inl ContinueSignal, st') \<Rightarrow> again st'
     | Some (Inl e, st') \<Rightarrow> Some (Inl e, st')
     | Some (Inr v, st') \<Rightarrow> again st')"

primrec while_loop :: "nat \<Rightarrow> evaluator \<Rightarrow> node \<Rightarrow> node \<Rightarrow> nat \<Rightarrow> val comp" where
  "while_loop 0 ev condition body env = (\<lambda>st. None)"
| "while_loop (Suc k) ev condition body env =
     bnd (ev condition env) (\<lambda>c st.
       if py_bool st c then loop_body ev body env (while_loop k ev condition body env) st
       else ok VNone st)"

definition eval_WhileNode :: "nat \<Rightarrow> evaluator \<Rightarrow> node \<Rightarrow> node \<Rightarrow> nat \<Rightarrow> val comp" where
  "eval_WhileNode k ev condition body env = while_loop k ev condition body env"

text \<open>\<open>for item in items: env.set(var, item); (body)\<close> over a sequence that cannot change.\<close>

primrec for_items :: "evaluator \<Rightarrow> string \<Rightarrow> node \<Rightarrow> nat \<Rightarrow> val list \<Rightarrow> val comp" where
  "for_items ev var body env [] = ok VNone"
| "for_items ev var body env (item # rest) =
     bnd (env_set env var item) (\<lambda>u. loop_body ev body env (for_items ev var body env rest))"

definition is_number :: "val \<Rightarrow> bool" where
  "is_number v = (as_int v \<noteq> None)"

definition eval_ForRangeNode ::
  "evaluator \<Rightarrow> string \<Rightarrow> node \<Rightarrow> node \<Rightarrow> node option \<Rightarrow> bool \<Rightarrow> node \<Rightarrow> nat \<Rightarrow> val comp" where
  "eval_ForRangeNode ev var startnode endnode stepnode reverse body env =
     bnd (ev startnode env) (\<lambda>start.
     bnd (ev endnode env) (\<lambda>end.
     bnd (case stepnode of Some s \<Rightarrow> ev s env | None \<Rightarrow> ok (VInt 1)) (\<lambda>step.
       if \<not> is_number start then throw (RuntimeError (Text ''Range start must be a number''))
       else if \<not> is_number end then throw (RuntimeError (Text ''Range end must be a number''))
       else
         (case py_int step of
            Inl e \<Rightarrow> throw e
          | Inr stp \<Rightarrow>
              (if stp = 0 then throw (HostException ValueError)
               else for_items ev var body env
                      (map VInt (if reverse then py_range (num start) (num end - 1) (- \<bar>stp\<bar>)
                                 else py_range (num start) (num end + 1) \<bar>stp\<bar>)))))))"

text \<open>
  Iterating a list follows the list object: each step reads element \<open>i\<close> of what the
  list holds by then. Iterating a dict yields its keys and raises the host's own
  \<open>RuntimeError\<close> as soon as the dict has changed size.
\<close>

primrec for_list :: "nat \<Rightarrow> evaluator \<Rightarrow> string \<Rightarrow> node \<Rightarrow> nat \<Rightarrow> nat \<Rightarrow> nat \<Rightarrow> val comp" where
  "for_list 0 ev var body env a i = (\<lambda>st. None)"
| "for_list (Suc k) ev var body env a i = (\<lambda>st.
     case obj_at st a of
       Some (OList xs) \<Rightarrow>
         (if i < length xs then
            bnd (env_set env var (xs ! i)) (\<lambda>u.
              loop_body ev body env (for_list k ev var body env a (Suc i))) st
          else ok VNone st)
     | _ \<Rightarrow> ok VNone st)"

primrec for_dict :: "nat \<Rightarrow> evaluator \<Rightarrow> string \<Rightarrow> node \<Rightarrow> nat \<Rightarrow> nat \<Rightarrow> nat \<Rightarrow> val comp" where
  "for_dict 0 ev var body env a size0 = (\<lambda>st.
     case obj_at st a of
       Some (ODict kvs) \<Rightarrow>
         (if length kvs \<noteq> size0 then throw (HostException DictChanged) st else ok VNone st)
     | _ \<Rightarrow> ok VNone st)"
| "for_dict (Suc remaining) ev var body env a size0 = (\<lambda>st.
     case obj_at st a of
       Some (ODict kvs) \<Rightarrow>
         (if length kvs \<noteq> size0 then throw (HostException DictChanged) st
          else if size0 - Suc remaining < length kvs then
            bnd (env_set env var (fst (kvs ! (size0 - Suc remaining)))) (\<lambda>u.
              loop_body ev body env (for_dict remaining ev var body env a size0)) st
          else ok VNone st)
     | _ \<Rightarrow> ok VNone st)"

definition eval_ForEachNode :: "nat \<Rightarrow> evaluator \<Rightarrow> string \<Rightarrow> node \<Rightarrow> node \<Rightarrow> nat \<Rightarrow> val comp" where
  "eval_ForEachNode k ev var iterable body env =
     bnd (ev iterable env) (\<lambda>it st.
       case it of
         VStr s \<Rightarrow> for_items ev var body env (map (\<lambda>c. VStr [c]) s) st
       | VRef a \<Rightarrow>
           (case obj_at st a of
              Some (OList xs) \<Rightarrow> for_list k ev var body env a 0 st
            | Some (ODict kvs) \<Rightarrow> for_dict (length kvs) ev var body env a (length kvs) st
            | _ \<Rightarrow> throw (RuntimeError (Text ([CHR 0x27] @ py_str st it @ [CHR 0x27] @ '' is not iterable''))) st)
       | _ \<Rightarrow> throw (RuntimeError (Text ([CHR 0x27] @ py_str st it @ [CHR 0x27] @ '' is not iterable''))) st)"

definition eval_BreakNode :: "val comp" where
  "eval_BreakNode = throw BreakSignal"

definition eval_ContinueNode :: "val comp" where
  "eval_ContinueNode = throw ContinueSignal"

subsection \<open>Functions\<close>

definition eval_LambdaNode :: "string list \<Rightarrow> node \<Rightarrow> nat \<Rightarrow> val comp" where
  "eval_LambdaNode params body env = alloc (EushaLambda params body env)"

definition eval_FunctionDefNode :: "string \<Rightarrow> string list \<Rightarrow> node \<Rightarrow> string option \<Rightarrow> nat \<Rightarrow> val comp" where
  "eval_FunctionDefNode name params body return_type env =
     bnd (alloc (EushaFunction name params body env return_type)) (\<lambda>fn.
     bnd (env_set env name fn) (\<lambda>u. ok VNone))"

definition is_function :: "state \<Rightarrow> val \<Rightarrow> bool" where
  "is_function st v =
     (case v of
        VRef a \<Rightarrow> (case obj_at st a of
                    Some (EushaFunction n ps b e r) \<Rightarrow> True
                  | Some (EushaLambda ps b e) \<Rightarrow> True
                  | _ \<Rightarrow> False)
      | _ \<Rightarrow> False)"

text \<open>The built-in \<open>help\<close> only prints its catalogue; its output is left unmodelled.\<close>

definition eval_FunctionCallNode :: "evaluator \<Rightarrow> string \<Rightarrow> node list \<Rightarrow> nat \<Rightarrow> val comp" where
  "eval_FunctionCallNode ev name argnodes env =
     bnd (eval_all ev argnodes env) (\<lambda>args.
       if name = ''len'' then
         (if length args \<noteq> 1 then throw (RuntimeError (Text ''len() takes exactly 1 argument''))
          else (\<lambda>st.
            case (case hd args of VRef a \<Rightarrow> obj_at st a | _ \<Rightarrow> None) of
              Some (OList xs) \<Rightarrow> ok (VInt (int (length xs))) st
            | _ \<Rightarrow>
              (case hd args of
                 VStr s \<Rightarrow> ok (VInt (int (length s))) st
               | _ \<Rightarrow> throw (RuntimeError (Text (''len() not supported for '' @ type_name st (hd args)))) st)))
       else if name = ''help'' then throw Unmodelled
       else
         bnd (env_get env name) (\<lambda>fn st.
           if is_function st fn then call_function ev fn args st
           else throw (RuntimeError (Text ([CHR 0x27] @ name @ [CHR 0x27] @ '' is not a function''))) st))"

definition eval_ReturnNode :: "evaluator \<Rightarrow> node \<Rightarrow> nat \<Rightarrow> val comp" where
  "eval_ReturnNode ev valnode env = bnd (ev valnode env) (\<lambda>v. throw (ReturnSignal v))"

subsection \<open>Blocks\<close>

primrec block_loop :: "evaluator \<Rightarrow> node list \<Rightarrow> nat \<Rightarrow> val \<Rightarrow> val comp" where
  "block_loop ev [] env result = ok result"
| "block_loop ev (stmt # rest) env result = bnd (ev stmt env) (\<lambda>r. block_loop ev rest env r)"

definition eval_BlockNode :: "evaluator \<Rightarrow> node list \<Rightarrow> nat \<Rightarrow> val comp" where
  "eval_BlockNode ev statements env = block_loop ev statements env VNone"

subsection \<open>\<open>Evaluator.eval\<close>: the dispatch on the node's class\<close>

fun eval_node :: "evaluator \<Rightarrow> nat \<Rightarrow> node \<Rightarrow> nat \<Rightarrow> val comp" where
  "eval_node ev k (NumberNode v) env = ok (VInt v)"
| "eval_node ev k (StringNode s) env = ok (VStr s)"
| "eval_node ev k (BoolNode b) env = ok (VBool b)"
| "eval_node ev k NoneNode env = ok VNone"
| "eval_node ev k (ListNode elements) env = eval_ListNode ev elements env"
| "eval_node ev k (ObjectLiteralNode pairs) env = eval_ObjectLiteralNode ev pairs env"
| "eval_node ev k (FStringNode parts) env = eval_FStringNode k ev parts env"
| "eval_node ev k (IndexGetNode target index) env = eval_IndexGetNode ev target index env"
| "eval_node ev k (IndexSetNode target index v) env = eval_IndexSetNode ev target index v env"
| "eval_node ev k (IdentifierNode name) env = eval_IdentifierNode name env"
| "eval_node ev k (AssignNode name v) env = eval_AssignNode ev name v env"
| "eval_node ev k (CompoundAssignNode name op v) env = eval_CompoundAssignNode ev name op v env"
| "eval_node ev k (BinOpNode left op right) env = eval_BinOpNode k ev left op right env"
| "eval_node ev k (UnaryOpNode op operand) env = eval_UnaryOpNode ev op operand env"
| "eval_node ev k (SayNode expr modifiers) env = eval_SayNode k ev expr modifiers env"
| "eval_node ev k (MethodCallNode obj method args) env = eval_MethodCallNode k ev obj method args env"
| "eval_node ev k (IfNode condition then_block else_block) env = eval_IfNode ev condition then_block else_block env"
| "eval_node ev k (WhileNode condition body) env = eval_WhileNode k ev condition body env"
| "eval_node ev k (ForRangeNode var start end step reverse body) env =
     eval_ForRangeNode ev var start end step reverse body env"
| "eval_node ev k (ForEachNode var iterable body) env = eval_ForEachNode k ev var iterable body env"
| "eval_node ev k BreakNode env = eval_BreakNode"
| "eval_node ev k ContinueNode env = eval_ContinueNode"
| "eval_node ev k (LambdaNode params body) env = eval_LambdaNode params body env"
| "eval_node ev k (FunctionDefNode name params body return_type) env =
     eval_FunctionDefNode name params body return_type env"
| "eval_node ev k (FunctionCallNode name args) env = eval_FunctionCallNode ev name args env"
| "eval_node ev k (ReturnNode v) env = eval_ReturnNode ev v env"
| "eval_node ev k (BlockNode statements) env = eval_BlockNode ev statements env"

primrec eval :: "nat \<Rightarrow> node \<Rightarrow> nat \<Rightarrow> val comp" where
  "eval 0 = (\<lambda>node env st. None)"
| "eval (Suc k) = eval_node (eval k) k"

section \<open>The driver (elang.py)\<close>

text \<open>
  \<open>Evaluator.__init__\<close> makes the global environment and registers the two built-in
  markers in it; \<open>run\<close> evaluates the program there.
\<close>

definition global_env :: nat where
  "global_env = 0"

definition initial_state :: state where
  "initial_state =
     \<lparr>envs = [\<lparr>vars = [(''__builtin_len__'', VBool True), (''__builtin_help__'', VBool True)],
               parent = None\<rparr>],
      heap = [], stdout = []\<rparr>"

definition run :: "nat \<Rightarrow> node \<Rightarrow> val comp" where
  "run k ast = eval k ast global_env"

text \<open>
  \<open>run_source\<close> from the point where the program is parsed. It returns \<open>True\<close> when
  \<open>evaluator.run\<close> returns. A \<open>RuntimeError_\<close> goes to \<open>format_error\<close>, which prints the
  header \<open>RuntimeError at line 0:\<close> and the message. Every other exception, the control
  signals included (they derive from \<open>Exception\<close>), reaches the last handler, which
  prints \<open>Internal Error:\<close> followed by the exception's text. Both return \<open>False\<close>.
\<close>

datatype outcome =
    Success
  | ErrorReport string message nat nat
  | InternalError exc
  | OutsideModel

definition run_source :: "nat \<Rightarrow> node \<Rightarrow> state \<Rightarrow> (outcome \<times> state) option" where
  "run_source k ast st =
     (case run k ast st of
        None \<Rightarrow> None
      | Some (Inr v, st') \<Rightarrow> Some (Success, st')
      | Some (Inl (RuntimeError m), st') \<Rightarrow> Some (ErrorReport ''RuntimeError'' m 0 0, st')
      | Some (Inl Unmodelled, st') \<Rightarrow> Some (OutsideModel, st')
      | Some (Inl e, st') \<Rightarrow> Some (InternalError e, st'))"

definition returns_success :: "outcome \<Rightarrow> bool" where
  "returns_success r = (r = Success)"

section \<open>The parser of object literals (lexer.py, parser.py)\<close>

text \<open>
  Tokens as the lexer makes them: a type, a payload, a line and a column. The payload of
  an identifier, keyword, string or punctuation token is a string, that of an integer
  token a number, and a newline or end-of-input token has none.
\<close>

datatype token_type =
    TT_INT | TT_FLOAT | TT_STRING | TT_FSTRING | TT_IDENTIFIER | TT_KEYWORD
  | TT_PLUS | TT_MINUS | TT_MUL | TT_DIV | TT_MOD | TT_POW
  | TT_EQ | TT_PLUSEQ | TT_MINUSEQ | TT_MULEQ | TT_DIVEQ
  | TT_EQEQ | TT_NEQ | TT_LT | TT_GT | TT_LTE | TT_GTE
  | TT_LPAREN | TT_RPAREN | TT_LBRACE | TT_RBRACE | TT_LBRACKET | TT_RBRACKET
  | TT_COMMA | TT_COLON | TT_DOT | TT_DOTDOT | TT_ARROW | TT_FATARROW
  | TT_CMDPREFIX | TT_NEWLINE | TT_EOF

datatype token_value =
    NoValue
  | IntValue int
  | StrValue string
  | PartsValue "(string \<times> string) list"

record Token =
  ttype :: token_type
  tvalue :: token_value
  line :: nat
  column :: nat

record Parser =
  tokens :: "Token list"
  pos :: nat

text \<open>
  A parse ends in a \<open>ParseError\<close> (what was expected or found, the token it was raised
  at, the hint), in the host's \<open>IndexError\<close> when the cursor is outside the token list,
  or in a result. \<open>None\<close> is a parse that does not return.
\<close>

datatype parse_message =
    ExpectedType token_type
  | ExpectedValue string
  | ExpectedKey

datatype parse_error =
    ParseError parse_message Token string
  | TokenIndexError
  | KeyNotAString

type_synonym 'a parse = "(parse_error + 'a) option"

text \<open>
  The helpers of the parser that \<open>parse_object_literal\<close> uses. It calls \<open>match\<close> and
  \<open>expect\<close> with a token type only, so their optional value argument is left out.
\<close>

definition current :: "Parser \<Rightarrow> Token option" where
  "current p = (if pos p < length (tokens p) then Some (tokens p ! pos p) else None)"

definition advance :: "Parser \<Rightarrow> Parser" where
  "advance p = (if pos p < length (tokens p) - 1 then p\<lparr>pos := pos p + 1\<rparr> else p)"

definition match :: "Parser \<Rightarrow> token_type \<Rightarrow> bool" where
  "match p ty = (case current p of Some tok \<Rightarrow> ttype tok = ty | None \<Rightarrow> False)"

definition expect_hint :: "token_type \<Rightarrow> string" where
  "expect_hint ty =
     (if ty = TT_RBRACE then ''Did you forget to close a block with '' @ [CHR 0x27] @ ''}'' @ [CHR 0x27] @ ''?''
      else if ty = TT_RPAREN then ''Did you forget a closing '' @ [CHR 0x27] @ '')'' @ [CHR 0x27] @ ''?''
      else if ty = TT_RBRACKET then ''Did you forget a closing '' @ [CHR 0x27] @ '']'' @ [CHR 0x27] @ ''?''
      else [])"

definition expect :: "Parser \<Rightarrow> token_type \<Rightarrow> Parser parse" where
  "expect p ty =
     (case current p of
        None \<Rightarrow> Some (Inl TokenIndexError)
      | Some tok \<Rightarrow>
          (if ttype tok \<noteq> ty then Some (Inl (ParseError (ExpectedType ty) tok (expect_hint ty)))
           else Some (Inr (advance p))))"

text \<open>
  \<open>while self.current().type == TT_NEWLINE: self.advance()\<close>. The cursor never passes
  the last token, so on a list that ends in a newline token the loop would not end; the
  lexer always ends the list with the end-of-input token.
\<close>

primrec skip_loop :: "nat \<Rightarrow> Parser \<Rightarrow> Parser parse" where
  "skip_loop 0 p = None"
| "skip_loop (Suc k) p =
     (case current p of
        None \<Rightarrow> Some (Inl TokenIndexError)
      | Some tok \<Rightarrow> (if ttype tok = TT_NEWLINE then skip_loop k (advance p) else Some (Inr p)))"

definition skip_newlines :: "Parser \<Rightarrow> Parser parse" where
  "skip_newlines p = skip_loop (Suc (length (tokens p))) p"

definition pbind :: "'a parse \<Rightarrow> ('a \<Rightarrow> 'b parse) \<Rightarrow> 'b parse" where
  "pbind m f = (case m of None \<Rightarrow> None | Some (Inl e) \<Rightarrow> Some (Inl e) | Some (Inr x) \<Rightarrow> f x)"

text \<open>
  The key of an entry: an identifier, keyword or string token, whose text becomes a
  \<open>StringNode\<close>.
\<close>

definition object_key :: "Parser \<Rightarrow> (node \<times> Parser) parse" where
  "object_key p =
     (case current p of
        None \<Rightarrow> Some (Inl TokenIndexError)
      | Some tok \<Rightarrow>
          (if ttype tok = TT_IDENTIFIER \<or> ttype tok = TT_KEYWORD \<or> ttype tok = TT_STRING then
             (case tvalue tok of
                StrValue s \<Rightarrow> Some (Inr (StringNode s, advance p))
              | _ \<Rightarrow> Some (Inl KeyNotAString))
           else Some (Inl (ParseError ExpectedKey tok ''Object keys must be identifiers or strings.''))))"

text \<open>
  The \<open>while True\<close> loop of \<open>parse_object_literal\<close>. \<open>parse_expression\<close> is the
  parameter \<open>pe\<close>: whatever it does with the value position, the key has been made
  before it is called. The fuel bounds the number of entries.
\<close>

primrec object_entries ::
  "nat \<Rightarrow> (Parser \<Rightarrow> (node \<times> Parser) parse) \<Rightarrow> (node \<times> node) list \<Rightarrow> Parser
   \<Rightarrow> ((node \<times> node) list \<times> Parser) parse" where
  "object_entries 0 pe pairs p = None"
| "object_entries (Suc k) pe pairs p =
     pbind (skip_newlines p) (\<lambda>p1.
     pbind (object_key p1) (\<lambda>kp.
     pbind (expect (snd kp) TT_COLON) (\<lambda>p2.
     pbind (pe p2) (\<lambda>vp.
     pbind (skip_newlines (snd vp)) (\<lambda>p3.
       if match p3 TT_COMMA then
         pbind (skip_newlines (advance p3)) (\<lambda>p4.
           if match p4 TT_RBRACE then Some (Inr (pairs @ [(fst kp, fst vp)], p4))
           else object_entries k pe (pairs @ [(fst kp, fst vp)]) p4)
       else Some (Inr (pairs @ [(fst kp, fst vp)], p3)))))))"

definition parse_object_literal ::
  "nat \<Rightarrow> (Parser \<Rightarrow> (node \<times> Parser) parse) \<Rightarrow> Parser \<Rightarrow> (node \<times> Parser) parse" where
  "parse_object_literal k pe p =
     pbind (skip_newlines (advance p)) (\<lambda>p1.
       if match p1 TT_RBRACE then Some (Inr (ObjectLiteralNode [], advance p1))
       else
         pbind (object_entries k pe [] p1) (\<lambda>r.
         pbind (expect (snd r) TT_RBRACE) (\<lambda>p2.
         Some (Inr (ObjectLiteralNode (fst r), p2)))))"

text \<open>
  The literal part of \<open>parse_primary\<close> (integer, string, \<open>true\<close>, \<open>false\<close>, \<open>none\<close>
  and a plain identifier), used to run the object parser on concrete tokens.
\<close>

definition parse_literal :: "Parser \<Rightarrow> (node \<times> Parser) parse" where
  "parse_literal p =
     (case current p of
        None \<Rightarrow> Some (Inl TokenIndexError)
      | Some tok \<Rightarrow>
          (case (ttype tok, tvalue tok) of
             (TT_INT, IntValue i) \<Rightarrow> Some (Inr (NumberNode i, advance p))
           | (TT_STRING, StrValue s) \<Rightarrow> Some (Inr (StringNode s, advance p))
           | (TT_KEYWORD, StrValue s) \<Rightarrow>
               (if s = ''true'' then Some (Inr (BoolNode True, advance p))
                else if s = ''false'' then Some (Inr (BoolNode False, advance p))
                else if s = ''none'' then Some (Inr (NoneNode, advance p))
                else Some (Inl (ParseError (ExpectedValue ''literal'') tok ''Check your syntax near this location.'')))
           | (TT_IDENTIFIER, StrValue s) \<Rightarrow> Some (Inr (IdentifierNode s, advance p))
           | _ \<Rightarrow> Some (Inl (ParseError (ExpectedValue ''literal'') tok ''Check your syntax near this location.''))))"

definition tok :: "token_type \<Rightarrow> token_value \<Rightarrow> Token" where
  "tok ty v = \<lparr>ttype = ty, tvalue = v, line = 1, column = 1\<rparr>"

section \<open>Programs and predicates used in the statements\<close>

text \<open>
  The closure example:
  \<^verbatim>\<open>fn outer() { x = 1; fn inner() { return x }; return inner }\<close>
  followed, at top level, by \<^verbatim>\<open>x = 2\<close>, \<^verbatim>\<open>f = outer()\<close> and \<^verbatim>\<open>f()\<close>.
\<close>

definition outer_def :: node where
  "outer_def =
     FunctionDefNode ''outer'' []
       (BlockNode
          [AssignNode ''x'' (NumberNode 1),
           FunctionDefNode ''inner'' [] (BlockNode [ReturnNode (IdentifierNode ''x'')]) None,
           ReturnNode (IdentifierNode ''inner'')])
       None"

definition closure_program :: node where
  "closure_program =
     BlockNode
       [outer_def,
        AssignNode ''x'' (NumberNode 2),
        AssignNode ''f'' (FunctionCallNode ''outer'' []),
        FunctionCallNode ''f'' []]"

text \<open>The binding of a name in one frame, without the walk to the parents.\<close>

definition frame_var :: "state \<Rightarrow> nat \<Rightarrow> string \<Rightarrow> val option" where
  "frame_var st env name = (if env < length (envs st) then map_of (vars (envs st ! env)) name else None)"

text \<open>The state after \<open>env.set(name, v)\<close> on the frame \<open>env\<close>.\<close>

definition bind_var :: "state \<Rightarrow> nat \<Rightarrow> string \<Rightarrow> val \<Rightarrow> state" where
  "bind_var st env name v =
     st\<lparr>envs := (envs st)[env := (envs st ! env)\<lparr>vars := upd_var name v (vars (envs st ! env))\<rparr>]\<rparr>"

text \<open>
  The run of a loop body for the item \<open>x\<close>, begun in state \<open>s\<close> and ended in
  \<open>st'\<close> with result \<open>res\<close>: the frame \<open>env\<close> exists, \<open>env.set\<close> stores the item
  under the variable's name in that frame, whatever was bound there before, the body runs
  in that same frame from the state so made, the frame is still there at the end, and the
  variable is then bound to \<open>x\<close> if the run has left its binding as it found it.
\<close>

definition last_iteration ::
  "evaluator \<Rightarrow> node \<Rightarrow> nat \<Rightarrow> string \<Rightarrow> val \<Rightarrow> state \<Rightarrow> exc + val \<Rightarrow> state \<Rightarrow> bool" where
  "last_iteration ev body env var x s res st' =
     (env < length (envs s)
      \<and> env_set env var x s = Some (Inr (), bind_var s env var x)
      \<and> frame_var (bind_var s env var x) env var = Some x
      \<and> ev body env (bind_var s env var x) = Some (res, st')
      \<and> env < length (envs st')
      \<and> (frame_var st' env var = frame_var (bind_var s env var x) env var
           \<longrightarrow> frame_var st' env var = Some x))"

text \<open>A computation keeps the frames when no run of it ends with fewer frames than it began with.\<close>

definition keeps_frames :: "'a comp \<Rightarrow> bool" where
  "keeps_frames m = (\<forall>st r st'. m st = Some (r, st') \<longrightarrow> length (envs st) \<le> length (envs st'))"

text \<open>
  Two loop bodies: \<^verbatim>\<open>{ if i == 3 { break } }\<close>, which leaves the loop in the third
  iteration, and \<^verbatim>\<open>{ y = [x] }\<close>, which allocates a list in every iteration.
\<close>

definition break_at_three :: node where
  "break_at_three =
     BlockNode [IfNode (BinOpNode (IdentifierNode ''i'') ''=='' (NumberNode 3)) (BlockNode [BreakNode]) None]"

definition wrap_item :: node where
  "wrap_item = BlockNode [AssignNode ''y'' (ListNode [IdentifierNode ''x''])]"

text \<open>
  A state in which the function \<open>inner\<close> has captured frame 1 (where \<open>x\<close> is 1), while
  the global frame 0 binds \<open>x\<close> to 2.
\<close>

definition captured_state :: state where
  "captured_state =
     \<lparr>envs = [\<lparr>vars = [(''x'', VInt 2)], parent = None\<rparr>, \<lparr>vars = [(''x'', VInt 1)], parent = Some 0\<rparr>],
      heap = [EushaFunction ''inner'' [] (BlockNode [ReturnNode (IdentifierNode ''x'')]) 1 None],
      stdout = []\<rparr>"

text \<open>A state in which \<open>l\<close> names the list \<open>[1, 2]\<close>, and one in which \<open>a\<close> is 7.\<close>

definition list_state :: state where
  "list_state =
     \<lparr>envs = [\<lparr>vars = [(''l'', VRef 0)], parent = None\<rparr>], heap = [OList [VInt 1, VInt 2]], stdout = []\<rparr>"

definition a_bound_state :: state where
  "a_bound_state = \<lparr>envs = [\<lparr>vars = [(''a'', VInt 7)], parent = None\<rparr>], heap = [], stdout = []\<rparr>"

text \<open>
  A key token: an identifier, keyword or string token, with its text. An entry of an object
  literal as it is written from the cursor \<open>q\<close> on: newlines, a key token with text
  \<open>a\<close>, a colon, a value that \<open>parse_expression\<close> (the parameter \<open>pe\<close>) parses to
  \<open>v\<close>, and newlines again, which leave the cursor at \<open>q3\<close>.
\<close>

definition key_token :: "Token \<Rightarrow> string \<Rightarrow> bool" where
  "key_token t a =
     ((ttype t = TT_IDENTIFIER \<or> ttype t = TT_KEYWORD \<or> ttype t = TT_STRING) \<and> tvalue t = StrValue a)"

definition entry_at ::
  "(Parser \<Rightarrow> (node \<times> Parser) parse) \<Rightarrow> Parser \<Rightarrow> string \<Rightarrow> node \<Rightarrow> Parser \<Rightarrow> bool" where
  "entry_at pe q a v q3 =
     (\<exists>q1 t p2 pv. skip_newlines q = Some (Inr q1) \<and> current q1 = Some t \<and> key_token t a
        \<and> expect (advance q1) TT_COLON = Some (Inr p2)
        \<and> pe p2 = Some (Inr (v, pv))
        \<and> skip_newlines pv = Some (Inr q3))"

text \<open>
  The entries of a literal as they are written from the cursor \<open>q\<close> on, with the cursor
  \<open>q'\<close> after them: entries are separated by commas, a comma may follow the last entry,
  and newlines may follow a comma.
\<close>

inductive entries_written ::
  "(Parser \<Rightarrow> (node \<times> Parser) parse) \<Rightarrow> Parser \<Rightarrow> (string \<times> node) list \<Rightarrow> Parser \<Rightarrow> bool"
  for pe where
    last_entry:
      "entry_at pe q a v q3 \<Longrightarrow> \<not> match q3 TT_COMMA \<Longrightarrow> entries_written pe q [(a, v)] q3"
  | trailing_comma:
      "entry_at pe q a v q3 \<Longrightarrow> match q3 TT_COMMA \<Longrightarrow> skip_newlines (advance q3) = Some (Inr q4) \<Longrightarrow>
       match q4 TT_RBRACE \<Longrightarrow> entries_written pe q [(a, v)] q4"
  | more_entries:
      "entry_at pe q a v q3 \<Longrightarrow> match q3 TT_COMMA \<Longrightarrow> skip_newlines (advance q3) = Some (Inr q4) \<Longrightarrow>
       \<not> match q4 TT_RBRACE \<Longrightarrow> entries_written pe q4 es q' \<Longrightarrow>
       entries_written pe q ((a, v) # es) q'"

text \<open>The pair of nodes that stands for a written entry.\<close>

definition entry_node :: "string \<times> node \<Rightarrow> node \<times> node" where
  "entry_node e = (StringNode (fst e), snd e)"

text \<open>
  A run that evaluates the values of the entries in order, in frame \<open>env\<close>, and stores
  each under the string of its key in the dict at address \<open>d\<close>.
\<close>

inductive values_stored ::
  "evaluator \<Rightarrow> nat \<Rightarrow> nat \<Rightarrow> (string \<times> node) list \<Rightarrow> state \<Rightarrow> state \<Rightarrow> bool"
  for ev env d where
    no_entry: "values_stored ev env d [] st st"
  | entry:
      "ev vnode env st = Some (Inr v, s1) \<Longrightarrow> obj_at s1 d = Some (ODict kvs) \<Longrightarrow>
       values_stored ev env d es (s1\<lparr>heap := (heap s1)[d := ODict (dict_put kvs (VStr a) v)]\<rparr>) st' \<Longrightarrow>
       values_stored ev env d ((a, vnode) # es) st st'"

text \<open>The tokens of \<^verbatim>\<open>x = {a: 1, b: 2}\<close>.\<close>

definition assignment_tokens :: "Token list" where
  "assignment_tokens =
     [tok TT_IDENTIFIER (StrValue ''x''), tok TT_EQ (StrValue ''=''), tok TT_LBRACE (StrValue ''{''),
      tok TT_IDENTIFIER (StrValue ''a''), tok TT_COLON (StrValue '':''), tok TT_INT (IntValue 1),
      tok TT_COMMA (StrValue '',''),
      tok TT_IDENTIFIER (StrValue ''b''), tok TT_COLON (StrValue '':''), tok TT_INT (IntValue 2),
      tok TT_RBRACE (StrValue ''}''), tok TT_EOF NoValue]"

section \<open>Basic facts about the combinators\<close>

lemma ok_apply: "ok v st = Some (Inr v, st)"
  by (simp add: ok_def)

lemma throw_apply: "throw e st = Some (Inl e, st)"
  by (simp add: throw_def)

lemma bnd_ok: "bnd (ok v) f = f v"
  by (simp add: bnd_def ok_def)

lemma bnd_throw: "bnd (throw e) f = throw e"
  by (simp add: bnd_def throw_def)

lemma bnd_value: "m st = Some (Inr v, st') \<Longrightarrow> bnd m f st = f v st'"
  by (simp add: bnd_def)

lemma bnd_raise: "m st = Some (Inl e, st') \<Longrightarrow> bnd m f st = Some (Inl e, st')"
  by (simp add: bnd_def)

lemma catch_value: "m st = Some (Inr v, st') \<Longrightarrow> catch m h st = Some (Inr v, st')"
  by (simp add: catch_def)

lemma catch_raise: "m st = Some (Inl e, st') \<Longrightarrow> catch m h st = h e st'"
  by (simp add: catch_def)

lemma block_loop_result:
  "ss \<noteq> [] \<Longrightarrow> block_loop ev ss env r st1 = block_loop ev ss env VNone st1"
  by (cases ss) (simp_all add: bnd_def)

lemma block_step:
  "eval (Suc n) (BlockNode (s # ss)) env st =
     (case eval n s env st of
        Some (Inr v, st1) \<Rightarrow> (if ss = [] then Some (Inr v, st1) else eval (Suc n) (BlockNode ss) env st1)
      | other \<Rightarrow> other)"
proof (cases "eval n s env st")
  case None
  then show ?thesis by (simp add: eval_BlockNode_def bnd_def)
next
  case (Some p)
  obtain r st1 where p: "p = (r, st1)" by (cases p)
  show ?thesis
  proof (cases r)
    case (Inl e)
    with Some p show ?thesis by (simp add: eval_BlockNode_def bnd_def)
  next
    case (Inr v)
    show ?thesis
    proof (cases "ss = []")
      case True
      with Some p Inr show ?thesis by (simp add: eval_BlockNode_def bnd_def ok_def)
    next
      case False
      with Some p Inr block_loop_result [OF False, of "eval n" env v st1] show ?thesis
        by (simp add: eval_BlockNode_def bnd_def)
    qed
  qed
qed

section \<open>The operators \<open>and\<close> and \<open>or\<close>\<close>

text \<open>
  Claim C1 says that \<open>and\<close> and \<open>or\<close> short-circuit and yield a boolean.
  \<open>eval_BinOpNode\<close> evaluates both operands before it looks at the operator, so the
  right operand always runs. With a false left operand, the division by zero on the
  right of \<open>and\<close> is still raised; with a true left operand, the \<open>say\<close> on the right
  of \<open>or\<close> still prints.
\<close>

theorem and_or_no_short_circuit_counterexample:
  "eval 3 (BinOpNode (BoolNode False) ''and'' (BinOpNode (NumberNode 1) ''/'' (NumberNode 0)))
       global_env initial_state
     = Some (Inl (RuntimeError (Text ''Division by zero'')), initial_state)
   \<and> eval 3 (BinOpNode (BoolNode True) ''or'' (SayNode (StringNode ''hi'') []))
       global_env initial_state
     = Some (Inr (VBool True), initial_state\<lparr>stdout := ''hi''\<rparr>)"
  by code_simp

text \<open>
  Claim C1 as amended: \<open>and\<close> and \<open>or\<close> evaluate the left operand and then, whatever its
  value, the right operand. An error of the right operand is the result; when both
  operands yield values the result is the boolean \<open>bool(left) and bool(right)\<close>
  (respectively \<open>or\<close>), the truth values being taken after both evaluations, and never
  one of the operand values.
\<close>

theorem and_or_evaluate_both_operands:
  assumes l: "eval n l env st = Some (Inr a, st1)"
      and r: "eval n r env st1 = Some (res, st2)"
  shows "eval (Suc n) (BinOpNode l ''and'' r) env st =
           Some (case res of Inl e \<Rightarrow> Inl e | Inr b \<Rightarrow> Inr (VBool (py_bool st2 a \<and> py_bool st2 b)), st2)
       \<and> eval (Suc n) (BinOpNode l ''or'' r) env st =
           Some (case res of Inl e \<Rightarrow> Inl e | Inr b \<Rightarrow> Inr (VBool (py_bool st2 a \<or> py_bool st2 b)), st2)"
proof (cases res)
  case (Inl e)
  with l r show ?thesis
    by (simp add: eval_BinOpNode_def bnd_value bnd_raise)
next
  case (Inr b)
  with l r show ?thesis
    by (simp add: eval_BinOpNode_def bnd_value catch_def ok_def)
qed

theorem and_or_evaluate_both_operands_witness:
  "eval (Suc 0) (BoolNode False) global_env initial_state = Some (Inr (VBool False), initial_state)
   \<and> eval (Suc 0) (NumberNode 5) global_env initial_state = Some (Inr (VInt 5), initial_state)
   \<and> eval (Suc (Suc 0)) (BinOpNode (BoolNode False) ''and'' (NumberNode 5)) global_env initial_state
       = Some (Inr (VBool False), initial_state)
   \<and> eval (Suc (Suc 0)) (BinOpNode (BoolNode False) ''or'' (NumberNode 5)) global_env initial_state
       = Some (Inr (VBool True), initial_state)"
proof -
  have l: "eval (Suc 0) (BoolNode False) global_env initial_state = Some (Inr (VBool False), initial_state)"
    by (simp add: ok_def)
  have r: "eval (Suc 0) (NumberNode 5) global_env initial_state = Some (Inr (VInt 5), initial_state)"
    by (simp add: ok_def)
  from and_or_evaluate_both_operands [OF l r] l r show ?thesis
    by (simp add: py_bool_def)
qed

section \<open>Host exceptions that reach the driver\<close>

text \<open>
  Claim C2 says that no evaluation step surfaces a host exception. \<open>eval_BinOpNode\<close>
  wraps a \<open>TypeError\<close> of the host into a \<open>RuntimeError_\<close>, but \<open>eval_UnaryOpNode\<close> has no
  such handler: negating a string raises the host's \<open>TypeError\<close>, which \<open>run_source\<close>
  reports through its catch-all as an internal error. The subtraction shows the handler
  of the sibling method at work.
\<close>

theorem unary_minus_raises_host_TypeError:
  "eval (Suc (Suc n)) (UnaryOpNode ''-'' (StringNode s)) env st
     = Some (Inl (HostException TypeError), st)
   \<and> run_source (Suc (Suc n)) (UnaryOpNode ''-'' (StringNode s)) st
     = Some (InternalError (HostException TypeError), st)
   \<and> eval (Suc (Suc n)) (BinOpNode (NumberNode 0) ''-'' (StringNode s)) env st
     = Some (Inl (RuntimeError (HostText [] TypeError)), st)"
  by (simp add: run_source_def run_def eval_UnaryOpNode_def eval_BinOpNode_def py_neg_def
      py_sub_def as_int_def wrap_TypeError_def catch_def ok_apply throw_apply bnd_ok bnd_throw)

section \<open>Blocks and frames\<close>

text \<open>
  Claim C3 says that the statements of a block run in a fresh environment whose parent
  is the enclosing one. \<open>eval_BlockNode\<close> passes its own \<open>env\<close> to every statement.
  After \<^verbatim>\<open>if true { x = 1 }\<close> at top level there is still one frame, the global one,
  and \<open>x\<close> is bound in it.
\<close>

theorem block_creates_no_frame_counterexample:
  "eval 4 (IfNode (BoolNode True) (BlockNode [AssignNode ''x'' (NumberNode 1)]) None)
       global_env initial_state
     = Some (Inr (VInt 1),
         initial_state\<lparr>envs :=
           [\<lparr>vars = [(''__builtin_len__'', VBool True), (''__builtin_help__'', VBool True), (''x'', VInt 1)],
             parent = None\<rparr>]\<rparr>)"
  by code_simp

text \<open>
  Claim C3 as amended: entering a block creates no frame. An empty block returns
  \<open>None\<close> and leaves the state as it is; a block runs its first statement in the very
  frame it was given and, unless that statement raises, goes on with the rest in the same
  frame and the state the statement left; so an assignment inside a block binds the name
  in the enclosing frame.
\<close>

theorem block_runs_in_enclosing_frame:
  "eval (Suc n) (BlockNode []) env st = Some (Inr VNone, st)
   \<and> eval (Suc n) (BlockNode (s # ss)) env st =
       (case eval n s env st of
          Some (Inr v, st1) \<Rightarrow> (if ss = [] then Some (Inr v, st1) else eval (Suc n) (BlockNode ss) env st1)
        | other \<Rightarrow> other)
   \<and> (eval n e env st = Some (Inr v, st1) \<longrightarrow>
        eval (Suc (Suc n)) (BlockNode [AssignNode x e]) env st =
          Some (Inr v, st1\<lparr>envs := (envs st1)[env := (envs st1 ! env)\<lparr>vars := upd_var x v (vars (envs st1 ! env))\<rparr>]\<rparr>))"
proof (intro conjI impI)
  show "eval (Suc n) (BlockNode []) env st = Some (Inr VNone, st)"
    by (simp add: eval_BlockNode_def ok_def)
next
  show "eval (Suc n) (BlockNode (s # ss)) env st =
       (case eval n s env st of
          Some (Inr v, st1) \<Rightarrow> (if ss = [] then Some (Inr v, st1) else eval (Suc n) (BlockNode ss) env st1)
        | other \<Rightarrow> other)"
    by (rule block_step)
next
  assume "eval n e env st = Some (Inr v, st1)"
  then show "eval (Suc (Suc n)) (BlockNode [AssignNode x e]) env st =
          Some (Inr v, st1\<lparr>envs := (envs st1)[env := (envs st1 ! env)\<lparr>vars := upd_var x v (vars (envs st1 ! env))\<rparr>]\<rparr>)"
    by (simp add: eval_BlockNode_def eval_AssignNode_def bnd_def ok_def env_assign_def env_set_def)
qed

theorem block_runs_in_enclosing_frame_witness:
  "eval (Suc 0) (NumberNode 1) global_env initial_state = Some (Inr (VInt 1), initial_state)
   \<and> eval (Suc (Suc (Suc 0))) (BlockNode [AssignNode ''x'' (NumberNode 1)]) global_env initial_state
       = Some (Inr (VInt 1),
           initial_state\<lparr>envs :=
             [\<lparr>vars = [(''__builtin_len__'', VBool True), (''__builtin_help__'', VBool True), (''x'', VInt 1)],
               parent = None\<rparr>]\<rparr>)"
proof -
  have e: "eval (Suc 0) (NumberNode 1) global_env initial_state = Some (Inr (VInt 1), initial_state)"
    by (simp add: ok_def)
  from block_runs_in_enclosing_frame [of "Suc 0" global_env initial_state NoneNode "[]" "NumberNode 1" "VInt 1" initial_state "''x''"] e
  show ?thesis
    by (simp add: initial_state_def global_env_def upd_var_def)
qed

section \<open>\<open>+\<close> with a string operand\<close>

text \<open>
  Claim C4 says that \<open>+\<close> with a string operand renders both sides in their display
  form, as \<open>say\<close> does. The branch calls the host's \<open>str()\<close> and not
  \<open>_format_value\<close>: null comes out as \<open>None\<close> and true as \<open>True\<close>, where
  \<open>_format_value\<close> gives \<open>none\<close> and \<open>true\<close>.
\<close>

theorem plus_renders_with_host_str:
  "eval (Suc (Suc n)) (BinOpNode (StringNode s) ''+'' NoneNode) env st
     = Some (Inr (VStr (s @ ''None'')), st)
   \<and> eval (Suc (Suc n)) (BinOpNode (StringNode s) ''+'' (BoolNode True)) env st
     = Some (Inr (VStr (s @ ''True'')), st)
   \<and> format_value (Suc k) st VNone = Some ''none''
   \<and> format_value (Suc k) st (VBool True) = Some ''true''"
  by (simp add: eval_BinOpNode_def plus_op_def py_str_def py_repr_def catch_def
      ok_apply throw_apply bnd_ok bnd_throw)

section \<open>Division and modulo by zero\<close>

text \<open>
  Claim C5 says that \<open>/\<close>, \<open>/=\<close> and \<open>%\<close> with a zero right operand raise a runtime
  error. The branch for \<open>/\<close> tests the divisor and raises \<open>RuntimeError_\<close>; the branch
  for \<open>%\<close> has no test, so the host's \<open>ZeroDivisionError\<close> escapes and \<open>run_source\<close>
  reports an internal error.
\<close>

theorem modulo_by_zero_raises_host_exception:
  "eval (Suc (Suc n)) (BinOpNode (NumberNode a) ''%'' (NumberNode 0)) env st
     = Some (Inl (HostException ZeroDivisionError), st)
   \<and> run_source (Suc (Suc n)) (BinOpNode (NumberNode a) ''%'' (NumberNode 0)) st
     = Some (InternalError (HostException ZeroDivisionError), st)
   \<and> eval (Suc (Suc n)) (BinOpNode (NumberNode a) ''/'' (NumberNode 0)) env st
     = Some (Inl (RuntimeError (Text ''Division by zero'')), st)"
  by (simp add: run_source_def run_def eval_BinOpNode_def py_mod_def div_op_def is_zero_def
      as_int_def wrap_TypeError_def catch_def ok_apply throw_apply bnd_ok bnd_throw)

section \<open>\<open>break\<close> and \<open>continue\<close> outside a loop\<close>

text \<open>
  Claim C6 says that a \<open>break\<close> or \<open>continue\<close> outside any loop is reported as a
  runtime error. \<open>eval_BreakNode\<close> and \<open>eval_ContinueNode\<close> raise \<open>BreakSignal\<close> and
  \<open>ContinueSignal\<close>, which only the loops catch. With no loop around the statement
  nothing turns the signal into a \<open>RuntimeError_\<close>: it leaves \<open>evaluator.run\<close> and falls
  to the last handler of \<open>run_source\<close>, the one for failures the interpreter did not
  foresee, which reports an internal error and returns failure. An error that the
  evaluator raises on purpose, such as a division by zero, is reported under the
  \<open>RuntimeError\<close> header.
\<close>

theorem stray_break_reaches_catch_all:
  "eval (Suc n) BreakNode env st = Some (Inl BreakSignal, st)
   \<and> eval (Suc n) ContinueNode env st = Some (Inl ContinueSignal, st)
   \<and> run_source (Suc (Suc n)) (BlockNode (BreakNode # rest)) st = Some (InternalError BreakSignal, st)
   \<and> run_source (Suc (Suc n)) (BlockNode (ContinueNode # rest)) st = Some (InternalError ContinueSignal, st)
   \<and> \<not> returns_success (InternalError BreakSignal)
   \<and> \<not> returns_success (InternalError ContinueSignal)
   \<and> run_source (Suc (Suc (Suc n))) (BlockNode [BinOpNode (NumberNode a) ''/'' (NumberNode 0)]) st
       = Some (ErrorReport ''RuntimeError'' (Text ''Division by zero'') 0 0, st)"
  by (simp add: run_source_def run_def returns_success_def eval_BlockNode_def eval_BreakNode_def
      eval_ContinueNode_def eval_BinOpNode_def div_op_def is_zero_def as_int_def wrap_TypeError_def
      catch_def ok_apply throw_apply bnd_ok bnd_throw bnd_def)

section \<open>Closures\<close>

lemma call_function_EushaFunction:
  assumes "obj_at st a = Some (EushaFunction name params body cenv rt)"
      and "length args = length params"
  shows "call_function ev (VRef a) args st =
           bnd (set_params (length (envs st)) (zip params args))
               (\<lambda>u. catch (bnd (ev body (length (envs st))) (\<lambda>r. ok VNone)) return_value)
               (st\<lparr>envs := envs st @ [\<lparr>vars = [], parent = Some cenv\<rparr>]\<rparr>)"
  using assms by (simp add: call_function_def new_Environment_def bnd_def)

text \<open>
  Claim C7: closures are lexically scoped. Evaluating a \<open>fn\<close> statement in frame
  \<open>env\<close> stores a function object whose captured environment is \<open>env\<close> and binds the
  name to it in \<open>env\<close>. Calling a function object creates a frame whose parent is the
  captured environment, whatever frame the call is made from, binds the parameters there
  and runs the body in it. In the example program the call of the function returned by
  \<open>outer()\<close> yields 1, although \<open>outer\<close> has returned and the calling frame binds
  \<open>x\<close> to 2.
\<close>

theorem closures_capture_definition_environment:
  "eval (Suc n) (FunctionDefNode name params body rt) env st =
      Some (Inr VNone,
        st\<lparr>heap := heap st @ [EushaFunction name params body env rt],
           envs := (envs st)[env := (envs st ! env)\<lparr>vars :=
                      upd_var name (VRef (length (heap st))) (vars (envs st ! env))\<rparr>]\<rparr>)
   \<and> (obj_at st a = Some (EushaFunction name params body cenv rt) \<and> length args = length params \<longrightarrow>
        call_function ev (VRef a) args st =
           bnd (set_params (length (envs st)) (zip params args))
               (\<lambda>u. catch (bnd (ev body (length (envs st))) (\<lambda>r. ok VNone)) return_value)
               (st\<lparr>envs := envs st @ [\<lparr>vars = [], parent = Some cenv\<rparr>]\<rparr>))
   \<and> map_option fst (run 7 closure_program initial_state) = Some (Inr (VInt 1))"
proof (intro conjI impI)
  show "eval (Suc n) (FunctionDefNode name params body rt) env st =
      Some (Inr VNone,
        st\<lparr>heap := heap st @ [EushaFunction name params body env rt],
           envs := (envs st)[env := (envs st ! env)\<lparr>vars :=
                      upd_var name (VRef (length (heap st))) (vars (envs st ! env))\<rparr>]\<rparr>)"
    by (simp add: eval_FunctionDefNode_def alloc_def env_set_def bnd_def ok_def)
next
  assume "obj_at st a = Some (EushaFunction name params body cenv rt) \<and> length args = length params"
  then show "call_function ev (VRef a) args st =
           bnd (set_params (length (envs st)) (zip params args))
               (\<lambda>u. catch (bnd (ev body (length (envs st))) (\<lambda>r. ok VNone)) return_value)
               (st\<lparr>envs := envs st @ [\<lparr>vars = [], parent = Some cenv\<rparr>]\<rparr>)"
    by (simp add: call_function_EushaFunction)
next
  show "map_option fst (run 7 closure_program initial_state) = Some (Inr (VInt 1))"
    by code_simp
qed

theorem closures_capture_definition_environment_witness:
  "obj_at captured_state 0
      = Some (EushaFunction ''inner'' [] (BlockNode [ReturnNode (IdentifierNode ''x'')]) 1 None)
   \<and> env_lookup captured_state 0 ''x'' = Some (VInt 2)
   \<and> call_function (eval 3) (VRef 0) [] captured_state =
        Some (Inr (VInt 1), captured_state\<lparr>envs := envs captured_state @ [\<lparr>vars = [], parent = Some 1\<rparr>]\<rparr>)"
proof -
  have o: "obj_at captured_state 0
      = Some (EushaFunction ''inner'' [] (BlockNode [ReturnNode (IdentifierNode ''x'')]) 1 None)"
    by (simp add: obj_at_def captured_state_def)
  have x: "env_lookup captured_state 0 ''x'' = Some (VInt 2)"
    by code_simp
  have b: "eval 3 (BlockNode [ReturnNode (IdentifierNode ''x'')]) 2
             (captured_state\<lparr>envs := envs captured_state @ [\<lparr>vars = [], parent = Some 1\<rparr>]\<rparr>)
           = Some (Inl (ReturnSignal (VInt 1)),
                   captured_state\<lparr>envs := envs captured_state @ [\<lparr>vars = [], parent = Some 1\<rparr>]\<rparr>)"
    by code_simp
  have l: "length (envs captured_state) = 2"
    by (simp add: captured_state_def)
  from closures_capture_definition_environment [where st = captured_state and a = 0 and name = "''inner''"
      and params = "[]" and body = "BlockNode [ReturnNode (IdentifierNode ''x'')]" and cenv = 1 and rt = None
      and args = "[]" and ev = "eval 3"] o x b l
  show ?thesis
    by (simp add: bnd_def catch_def ok_def return_value_def)
qed

section \<open>\<open>push\<close> and \<open>pop\<close>\<close>

lemma push_pop_dispatch:
  assumes "obj_at st a = Some (OList xs)"
  shows "call_method k ev (VRef a) ''push'' [v] st
           = Some (Inr (VRef a), st\<lparr>heap := (heap st)[a := OList (xs @ [v])]\<rparr>)"
    and "obj_at (st\<lparr>heap := (heap st)[a := OList (xs @ [v])]\<rparr>) a = Some (OList (xs @ [v]))"
    and "call_method k ev (VRef a) ''pop'' [] (st\<lparr>heap := (heap st)[a := OList (xs @ [v])]\<rparr>)
           = Some (Inr v, st)"
proof -
  from assms have a: "a < length (heap st)" and h: "heap st ! a = OList xs"
    by (auto simp add: obj_at_def split: if_splits)
  have same: "(heap st)[a := OList xs] = heap st"
    using h by (metis list_update_id)
  show "call_method k ev (VRef a) ''push'' [v] st
           = Some (Inr (VRef a), st\<lparr>heap := (heap st)[a := OList (xs @ [v])]\<rparr>)"
    using assms by (simp add: call_method_def list_method_def put_obj_def bnd_def ok_def)
  show "obj_at (st\<lparr>heap := (heap st)[a := OList (xs @ [v])]\<rparr>) a = Some (OList (xs @ [v]))"
    using a by (simp add: obj_at_def)
  show "call_method k ev (VRef a) ''pop'' [] (st\<lparr>heap := (heap st)[a := OList (xs @ [v])]\<rparr>)
           = Some (Inr v, st)"
    using a same by (simp add: call_method_def list_method_def obj_at_def put_obj_def bnd_def ok_def)
qed

lemma env_lookup_heap_update: "env_lookup (st\<lparr>heap := h\<rparr>) env name = env_lookup st env name"
  by (simp add: env_lookup_def)

text \<open>
  Claim C8: for a list \<open>l\<close> with contents \<open>xs\<close> and any value \<open>v\<close>, \<open>l.push(v)\<close>
  returns the list and leaves it holding \<open>xs\<close> followed by \<open>v\<close>; \<open>l.pop()\<close> right after
  returns \<open>v\<close> and leaves the whole state, the list included, as it was before the push.
  The last part states the same for the two calls written as statements on a variable
  bound to the list, with an argument whose evaluation has no effect.
\<close>

theorem push_then_pop_restores_list:
  assumes "obj_at st a = Some (OList xs)"
  shows "call_method k ev (VRef a) ''push'' [v] st
           = Some (Inr (VRef a), st\<lparr>heap := (heap st)[a := OList (xs @ [v])]\<rparr>)
       \<and> obj_at (st\<lparr>heap := (heap st)[a := OList (xs @ [v])]\<rparr>) a = Some (OList (xs @ [v]))
       \<and> call_method k ev (VRef a) ''pop'' [] (st\<lparr>heap := (heap st)[a := OList (xs @ [v])]\<rparr>)
           = Some (Inr v, st)
       \<and> (env_lookup st env l = Some (VRef a) \<and> eval (Suc n) arg env st = Some (Inr v, st) \<longrightarrow>
            eval (Suc (Suc (Suc n)))
              (BlockNode [MethodCallNode (IdentifierNode l) ''push'' [arg],
                          MethodCallNode (IdentifierNode l) ''pop'' []]) env st
            = Some (Inr v, st))"
proof (intro conjI impI)
  note d = push_pop_dispatch [OF assms]
  show "call_method k ev (VRef a) ''push'' [v] st
           = Some (Inr (VRef a), st\<lparr>heap := (heap st)[a := OList (xs @ [v])]\<rparr>)"
    by (rule d(1))
  show "obj_at (st\<lparr>heap := (heap st)[a := OList (xs @ [v])]\<rparr>) a = Some (OList (xs @ [v]))"
    by (rule d(2))
  show "call_method k ev (VRef a) ''pop'' [] (st\<lparr>heap := (heap st)[a := OList (xs @ [v])]\<rparr>)
           = Some (Inr v, st)"
    by (rule d(3))
  assume h: "env_lookup st env l = Some (VRef a) \<and> eval (Suc n) arg env st = Some (Inr v, st)"
  let ?st1 = "st\<lparr>heap := (heap st)[a := OList (xs @ [v])]\<rparr>"
  let ?ev = "eval (Suc n)"
  have id0: "?ev (IdentifierNode l) env st = Some (Inr (VRef a), st)"
    using h by (simp add: eval_IdentifierNode_def env_get_def)
  have id1: "?ev (IdentifierNode l) env ?st1 = Some (Inr (VRef a), ?st1)"
    using h by (simp add: eval_IdentifierNode_def env_get_def env_lookup_heap_update)
  have args: "eval_all ?ev [arg] env st = Some (Inr [v], st)"
    using h by (simp add: bnd_def ok_def)
  have push: "eval (Suc (Suc n)) (MethodCallNode (IdentifierNode l) ''push'' [arg]) env st
                = Some (Inr (VRef a), ?st1)"
    using d(1) [of "Suc n" ?ev v] id0 args by (simp add: eval_MethodCallNode_def bnd_def)
  have pop: "eval (Suc (Suc n)) (MethodCallNode (IdentifierNode l) ''pop'' []) env ?st1
                = Some (Inr v, st)"
    using d(3) [of "Suc n" ?ev v] id1 by (simp add: eval_MethodCallNode_def bnd_def ok_def)
  show "eval (Suc (Suc (Suc n)))
              (BlockNode [MethodCallNode (IdentifierNode l) ''push'' [arg],
                          MethodCallNode (IdentifierNode l) ''pop'' []]) env st
            = Some (Inr v, st)"
    by (simp add: block_step push pop del: eval.simps)
qed

theorem push_then_pop_restores_list_witness:
  "obj_at list_state 0 = Some (OList [VInt 1, VInt 2])
   \<and> call_method 0 (eval 0) (VRef 0) ''push'' [VInt 3] list_state
        = Some (Inr (VRef 0), list_state\<lparr>heap := [OList [VInt 1, VInt 2, VInt 3]]\<rparr>)
   \<and> call_method 0 (eval 0) (VRef 0) ''pop'' [] (list_state\<lparr>heap := [OList [VInt 1, VInt 2, VInt 3]]\<rparr>)
        = Some (Inr (VInt 3), list_state)
   \<and> env_lookup list_state 0 ''l'' = Some (VRef 0)
   \<and> eval (Suc 0) (NumberNode 3) 0 list_state = Some (Inr (VInt 3), list_state)
   \<and> eval (Suc (Suc (Suc 0)))
        (BlockNode [MethodCallNode (IdentifierNode ''l'') ''push'' [NumberNode 3],
                    MethodCallNode (IdentifierNode ''l'') ''pop'' []]) 0 list_state
        = Some (Inr (VInt 3), list_state)"
proof -
  have o: "obj_at list_state 0 = Some (OList [VInt 1, VInt 2])"
    by (simp add: obj_at_def list_state_def)
  have h: "(heap list_state)[0 := OList ([VInt 1, VInt 2] @ [VInt 3])] = [OList [VInt 1, VInt 2, VInt 3]]"
    by (simp add: list_state_def)
  have e: "env_lookup list_state 0 ''l'' = Some (VRef 0)"
    by code_simp
  have a: "eval (Suc 0) (NumberNode 3) 0 list_state = Some (Inr (VInt 3), list_state)"
    by (simp add: ok_def)
  from push_then_pop_restores_list [OF o, of 0 "eval 0" "VInt 3" 0 "''l''" 0 "NumberNode 3"] o h e a show ?thesis
    by simp
qed

section \<open>Keys of object literals\<close>

lemma pbindE:
  "pbind m f = Some (Inr y) \<Longrightarrow> (\<And>x. m = Some (Inr x) \<Longrightarrow> f x = Some (Inr y) \<Longrightarrow> P) \<Longrightarrow> P"
  by (auto simp add: pbind_def split: option.splits sum.splits)

lemma object_key_result:
  "object_key p = Some (Inr kp) \<Longrightarrow>
   \<exists>t a. current p = Some t \<and> key_token t a \<and> kp = (StringNode a, advance p)"
  by (auto simp add: object_key_def key_token_def split: option.splits if_splits token_value.splits)

lemma object_key_of_token:
  "current p = Some t \<Longrightarrow> key_token t a \<Longrightarrow> object_key p = Some (Inr (StringNode a, advance p))"
  by (auto simp add: object_key_def key_token_def)

lemma object_entries_sound:
  "object_entries k pe pairs p = Some (Inr (ps, p')) \<Longrightarrow>
   \<exists>es. entries_written pe p es p' \<and> ps = pairs @ map entry_node es"
proof (induction k arbitrary: pairs p)
  case 0
  then show ?case by simp
next
  case (Suc k)
  from Suc.prems obtain p1 kp p2 vp p3 where
      s1: "skip_newlines p = Some (Inr p1)" and ky: "object_key p1 = Some (Inr kp)"
      and ex: "expect (snd kp) TT_COLON = Some (Inr p2)" and pv: "pe p2 = Some (Inr vp)"
      and s3: "skip_newlines (snd vp) = Some (Inr p3)"
      and rest: "(if match p3 TT_COMMA then
         pbind (skip_newlines (advance p3)) (\<lambda>p4.
           if match p4 TT_RBRACE then Some (Inr (pairs @ [(fst kp, fst vp)], p4))
           else object_entries k pe (pairs @ [(fst kp, fst vp)]) p4)
       else Some (Inr (pairs @ [(fst kp, fst vp)], p3))) = Some (Inr (ps, p'))"
    by (auto elim!: pbindE)
  from object_key_result [OF ky] obtain t a where
      t: "current p1 = Some t" "key_token t a" and kp: "kp = (StringNode a, advance p1)"
    by blast
  have ent: "\<And>q3. skip_newlines (snd vp) = Some (Inr q3) \<Longrightarrow> entry_at pe p a (fst vp) q3"
    unfolding entry_at_def using s1 t ex pv kp by (cases vp) auto
  show ?case
  proof (cases "match p3 TT_COMMA")
    case False
    with rest have "ps = pairs @ [(StringNode a, fst vp)]" "p' = p3"
      using kp by auto
    moreover from ent [OF s3] False have "entries_written pe p [(a, fst vp)] p3"
      by (rule entries_written.last_entry)
    ultimately show ?thesis
      by (auto simp add: entry_node_def intro!: exI [of _ "[(a, fst vp)]"])
  next
    case True
    with rest obtain p4 where s4: "skip_newlines (advance p3) = Some (Inr p4)"
      and rest4: "(if match p4 TT_RBRACE then Some (Inr (pairs @ [(fst kp, fst vp)], p4))
           else object_entries k pe (pairs @ [(fst kp, fst vp)]) p4) = Some (Inr (ps, p'))"
      by (auto elim!: pbindE)
    show ?thesis
    proof (cases "match p4 TT_RBRACE")
      case True
      with rest4 have "ps = pairs @ [(StringNode a, fst vp)]" "p' = p4"
        using kp by auto
      moreover from ent [OF s3] \<open>match p3 TT_COMMA\<close> s4 True
      have "entries_written pe p [(a, fst vp)] p4"
        by (rule entries_written.trailing_comma)
      ultimately show ?thesis
        by (auto simp add: entry_node_def intro!: exI [of _ "[(a, fst vp)]"])
    next
      case False
      with rest4 have "object_entries k pe (pairs @ [(StringNode a, fst vp)]) p4 = Some (Inr (ps, p'))"
        using kp by simp
      from Suc.IH [OF this] obtain es where
        es: "entries_written pe p4 es p'" "ps = (pairs @ [(StringNode a, fst vp)]) @ map entry_node es"
        by blast
      from ent [OF s3] \<open>match p3 TT_COMMA\<close> s4 False es(1)
      have "entries_written pe p ((a, fst vp) # es) p'"
        by (rule entries_written.more_entries)
      with es(2) show ?thesis
        by (auto simp add: entry_node_def intro!: exI [of _ "(a, fst vp) # es"])
    qed
  qed
qed

lemma entry_step:
  assumes "entry_at pe q a v q3"
  shows "object_entries (Suc k) pe pairs q =
           (if match q3 TT_COMMA then
              pbind (skip_newlines (advance q3)) (\<lambda>p4.
                if match p4 TT_RBRACE then Some (Inr (pairs @ [(StringNode a, v)], p4))
                else object_entries k pe (pairs @ [(StringNode a, v)]) p4)
            else Some (Inr (pairs @ [(StringNode a, v)], q3)))"
proof -
  from assms obtain q1 t p2 pv where
      a: "skip_newlines q = Some (Inr q1)" "current q1 = Some t" "key_token t a"
         "expect (advance q1) TT_COLON = Some (Inr p2)" "pe p2 = Some (Inr (v, pv))"
         "skip_newlines pv = Some (Inr q3)"
    unfolding entry_at_def by blast
  from a(2,3) have k: "object_key q1 = Some (Inr (StringNode a, advance q1))"
    by (rule object_key_of_token)
  show ?thesis
    using a k by (simp add: pbind_def split: option.splits sum.splits)
qed

lemma object_entries_complete:
  "entries_written pe q es q' \<Longrightarrow>
   object_entries (length es + k) pe pairs q = Some (Inr (pairs @ map entry_node es, q'))"
proof (induction arbitrary: pairs rule: entries_written.induct)
  case (last_entry q a v q3)
  then show ?case
    using entry_step [of pe q a v q3 k pairs] by (simp add: entry_node_def)
next
  case (trailing_comma q a v q3 q4)
  then show ?case
    using entry_step [of pe q a v q3 k pairs] by (simp add: entry_node_def pbind_def)
next
  case (more_entries q a v q3 q4 es q')
  from more_entries.IH [of "pairs @ [(StringNode a, v)]"] more_entries.hyps
  show ?case
    using entry_step [of pe q a v q3 "length es + k" pairs] by (simp add: entry_node_def pbind_def)
qed

lemma object_pairs_stored:
  "values_stored ev env d es st st' \<Longrightarrow>
   (\<And>s a. ev (StringNode a) env s = Some (Inr (VStr a), s)) \<Longrightarrow>
   object_pairs ev (map entry_node es) env (VRef d) st = Some (Inr (), st')"
proof (induction rule: values_stored.induct)
  case (no_entry st)
  then show ?case by (simp add: ok_def)
next
  case (entry vnode st v s1 kvs es a st')
  from entry.hyps(2) have "d < length (heap s1)"
    by (auto simp add: obj_at_def split: if_splits)
  with entry show ?case
    by (simp add: entry_node_def bnd_def dict_store_def hashable_def put_obj_def)
qed

lemma find_append_key:
  "find (\<lambda>kv. key_eq (fst kv) k) kvs = None \<Longrightarrow> key_eq k k \<Longrightarrow>
   find (\<lambda>kv. key_eq (fst kv) k) (kvs @ [(k, v)]) = Some (k, v)"
  by (induction kvs) (auto split: if_splits)

lemma find_replace_key:
  "find (\<lambda>kv. key_eq (fst kv) k) kvs \<noteq> None \<Longrightarrow>
   map_option snd (find (\<lambda>kv. key_eq (fst kv) k)
     (map (\<lambda>kv. if key_eq (fst kv) k then (fst kv, v) else kv) kvs)) = Some v"
  by (induction kvs) (auto split: if_splits)

lemma dict_get_dict_put: "dict_get (dict_put kvs (VStr a) v) (VStr a) = Some v"
proof (cases "find (\<lambda>kv. key_eq (fst kv) (VStr a)) kvs = None")
  case True
  moreover have "key_eq (VStr a) (VStr a)"
    by (simp add: key_eq_def as_int_def)
  ultimately have "find (\<lambda>kv. key_eq (fst kv) (VStr a)) (kvs @ [(VStr a, v)]) = Some (VStr a, v)"
    by (rule find_append_key)
  with True show ?thesis
    by (simp add: dict_put_def dict_get_def)
next
  case False
  then have "map_option snd (find (\<lambda>kv. key_eq (fst kv) (VStr a))
               (map (\<lambda>kv. if key_eq (fst kv) (VStr a) then (fst kv, v) else kv) kvs)) = Some v"
    by (rule find_replace_key)
  with False show ?thesis
    by (auto simp add: dict_put_def dict_get_def)
qed

lemma skip_newlines_stay:
  "current p = Some t \<Longrightarrow> ttype t \<noteq> TT_NEWLINE \<Longrightarrow> skip_newlines p = Some (Inr p)"
  by (simp add: skip_newlines_def)

lemma parse_object_literal_sound:
  assumes "parse_object_literal k pe p = Some (Inr (nd, p'))"
  shows "\<exists>q. skip_newlines (advance p) = Some (Inr q)
           \<and> ((match q TT_RBRACE \<and> nd = ObjectLiteralNode [])
              \<or> (\<exists>es q'. entries_written pe q es q' \<and> nd = ObjectLiteralNode (map entry_node es)))"
proof -
  from assms obtain q where q: "skip_newlines (advance p) = Some (Inr q)"
      and rest: "(if match q TT_RBRACE then Some (Inr (ObjectLiteralNode [], advance q))
         else pbind (object_entries k pe [] q) (\<lambda>r.
              pbind (expect (snd r) TT_RBRACE) (\<lambda>p2. Some (Inr (ObjectLiteralNode (fst r), p2)))))
       = Some (Inr (nd, p'))"
    unfolding parse_object_literal_def by (auto elim!: pbindE)
  show ?thesis
  proof (cases "match q TT_RBRACE")
    case True
    with rest q show ?thesis by auto
  next
    case False
    with rest obtain r where r: "object_entries k pe [] q = Some (Inr r)"
        and nd: "nd = ObjectLiteralNode (fst r)"
      by (auto elim!: pbindE)
    from r have "object_entries k pe [] q = Some (Inr (fst r, snd r))"
      by simp
    from object_entries_sound [OF this] obtain es where
      "entries_written pe q es (snd r)" "fst r = map entry_node es"
      by auto
    with q nd show ?thesis by blast
  qed
qed

lemma parse_object_literal_complete:
  assumes "skip_newlines (advance p) = Some (Inr q)" and "\<not> match q TT_RBRACE"
      and "entries_written pe q es q'" and "match q' TT_RBRACE"
  shows "parse_object_literal (length es + k) pe p
           = Some (Inr (ObjectLiteralNode (map entry_node es), advance q'))"
proof -
  from assms(3) have "object_entries (length es + k) pe [] q = Some (Inr ([] @ map entry_node es, q'))"
    by (rule object_entries_complete)
  moreover from assms(4) have "expect q' TT_RBRACE = Some (Inr (advance q'))"
    by (auto simp add: match_def expect_def split: option.splits)
  ultimately show ?thesis
    using assms(1,2) by (simp add: parse_object_literal_def pbind_def)
qed

lemma eval_entries_stored:
  assumes "values_stored (eval (Suc n)) env (length (heap st)) es (st\<lparr>heap := heap st @ [ODict []]\<rparr>) st'"
  shows "eval (Suc (Suc n)) (ObjectLiteralNode (map entry_node es)) env st
           = Some (Inr (VRef (length (heap st))), st')"
proof -
  from assms have "object_pairs (eval (Suc n)) (map entry_node es) env (VRef (length (heap st)))
                     (st\<lparr>heap := heap st @ [ODict []]\<rparr>) = Some (Inr (), st')"
    by (rule object_pairs_stored) (simp add: ok_def)
  then show ?thesis
    by (simp add: eval_ObjectLiteralNode_def alloc_def bnd_def ok_def)
qed

text \<open>
  Claim C10: in an object literal a key written as an identifier or keyword is the
  string of that name and is never looked up as a variable. Whatever
  \<open>parse_expression\<close> does and wherever in the token list the literal stands, the node
  that \<open>parse_object_literal\<close> returns is the empty literal or lists, in their order,
  the entries as they are written, the key token with text \<open>a\<close> as \<open>StringNode a\<close>;
  and entries written up to a closing brace parse to that very node. A \<open>StringNode\<close>
  evaluates to its string in every state and frame, so also where a variable of that name
  is bound. Evaluating the literal makes a new dict and stores each value under the string
  of its key, and a key so stored is found in the dict. The runs of the evaluator covered
  are those in which the dict, of which the program holds no reference yet, is still a
  dict after each value has been evaluated.
\<close>

theorem object_keys_are_literal_strings:
  "(parse_object_literal k pe p = Some (Inr (nd, p')) \<longrightarrow>
      (\<exists>q. skip_newlines (advance p) = Some (Inr q)
         \<and> ((match q TT_RBRACE \<and> nd = ObjectLiteralNode [])
            \<or> (\<exists>es q'. entries_written pe q es q' \<and> nd = ObjectLiteralNode (map entry_node es)))))
   \<and> (skip_newlines (advance p) = Some (Inr q) \<and> \<not> match q TT_RBRACE
        \<and> entries_written pe q es q' \<and> match q' TT_RBRACE
      \<longrightarrow> parse_object_literal (length es + k) pe p
            = Some (Inr (ObjectLiteralNode (map entry_node es), advance q')))
   \<and> eval (Suc n) (StringNode a) env st = Some (Inr (VStr a), st)
   \<and> (values_stored (eval (Suc n)) env (length (heap st)) es (st\<lparr>heap := heap st @ [ODict []]\<rparr>) st'
      \<longrightarrow> eval (Suc (Suc n)) (ObjectLiteralNode (map entry_node es)) env st
            = Some (Inr (VRef (length (heap st))), st'))
   \<and> dict_get (dict_put kvs (VStr a) v) (VStr a) = Some v"
proof (intro conjI impI)
  assume "parse_object_literal k pe p = Some (Inr (nd, p'))"
  then show "\<exists>q. skip_newlines (advance p) = Some (Inr q)
         \<and> ((match q TT_RBRACE \<and> nd = ObjectLiteralNode [])
            \<or> (\<exists>es q'. entries_written pe q es q' \<and> nd = ObjectLiteralNode (map entry_node es)))"
    by (rule parse_object_literal_sound)
next
  assume "skip_newlines (advance p) = Some (Inr q) \<and> \<not> match q TT_RBRACE
        \<and> entries_written pe q es q' \<and> match q' TT_RBRACE"
  then show "parse_object_literal (length es + k) pe p
            = Some (Inr (ObjectLiteralNode (map entry_node es), advance q'))"
    using parse_object_literal_complete [of p q pe es q' k] by blast
next
  show "eval (Suc n) (StringNode a) env st = Some (Inr (VStr a), st)"
    by (simp add: ok_def)
next
  assume "values_stored (eval (Suc n)) env (length (heap st)) es (st\<lparr>heap := heap st @ [ODict []]\<rparr>) st'"
  then show "eval (Suc (Suc n)) (ObjectLiteralNode (map entry_node es)) env st
            = Some (Inr (VRef (length (heap st))), st')"
    by (rule eval_entries_stored)
next
  show "dict_get (dict_put kvs (VStr a) v) (VStr a) = Some v"
    by (rule dict_get_dict_put)
qed

theorem object_keys_are_literal_strings_witness:
  "parse_object_literal (Suc (Suc 0)) parse_literal \<lparr>tokens = assignment_tokens, pos = 2\<rparr>
      = Some (Inr (ObjectLiteralNode [(StringNode ''a'', NumberNode 1), (StringNode ''b'', NumberNode 2)],
                   \<lparr>tokens = assignment_tokens, pos = 11\<rparr>))
   \<and> env_lookup a_bound_state 0 ''a'' = Some (VInt 7)
   \<and> eval (Suc (Suc 0)) (ObjectLiteralNode [(StringNode ''a'', NumberNode 1), (StringNode ''b'', NumberNode 2)]) 0 a_bound_state
      = Some (Inr (VRef 0), a_bound_state\<lparr>heap := [ODict [(VStr ''a'', VInt 1), (VStr ''b'', VInt 2)]]\<rparr>)"
proof -
  let ?P = "\<lambda>i. \<lparr>tokens = assignment_tokens, pos = i\<rparr>"
  let ?es = "[(''a'', NumberNode 1), (''b'', NumberNode 2)]"
  have len: "length assignment_tokens = 12"
    by (simp add: assignment_tokens_def)
  have adv: "\<And>i. i < 11 \<Longrightarrow> advance (?P i) = ?P (Suc i)"
    by (simp add: advance_def len)
  have cur: "current (?P 3) = Some (tok TT_IDENTIFIER (StrValue ''a''))"
      "current (?P 4) = Some (tok TT_COLON (StrValue '':''))"
      "current (?P 5) = Some (tok TT_INT (IntValue 1))"
      "current (?P 6) = Some (tok TT_COMMA (StrValue '',''))"
      "current (?P 7) = Some (tok TT_IDENTIFIER (StrValue ''b''))"
      "current (?P 8) = Some (tok TT_COLON (StrValue '':''))"
      "current (?P 9) = Some (tok TT_INT (IntValue 2))"
      "current (?P 10) = Some (tok TT_RBRACE (StrValue ''}''))"
    by (simp_all add: current_def assignment_tokens_def)
  have skip: "skip_newlines (?P 3) = Some (Inr (?P 3))" "skip_newlines (?P 6) = Some (Inr (?P 6))"
      "skip_newlines (?P 7) = Some (Inr (?P 7))" "skip_newlines (?P 10) = Some (Inr (?P 10))"
    by (rule skip_newlines_stay, rule cur, simp add: tok_def)+
  have e1: "entry_at parse_literal (?P 3) ''a'' (NumberNode 1) (?P 6)"
    unfolding entry_at_def
    by (intro exI [of _ "?P 3"] exI [of _ "tok TT_IDENTIFIER (StrValue ''a'')"] exI [of _ "?P 5"] exI [of _ "?P 6"])
       (simp add: skip cur adv key_token_def expect_def parse_literal_def tok_def)
  have e2: "entry_at parse_literal (?P 7) ''b'' (NumberNode 2) (?P 10)"
    unfolding entry_at_def
    by (intro exI [of _ "?P 7"] exI [of _ "tok TT_IDENTIFIER (StrValue ''b'')"] exI [of _ "?P 9"] exI [of _ "?P 10"])
       (simp add: skip cur adv key_token_def expect_def parse_literal_def tok_def)
  have m: "match (?P 6) TT_COMMA" "\<not> match (?P 7) TT_RBRACE" "\<not> match (?P 10) TT_COMMA"
      "match (?P 10) TT_RBRACE" "\<not> match (?P 3) TT_RBRACE"
    by (simp_all add: match_def cur tok_def)
  have wb: "entries_written parse_literal (?P 7) [(''b'', NumberNode 2)] (?P 10)"
    using e2 m(3) by (rule entries_written.last_entry)
  have w: "entries_written parse_literal (?P 3) ?es (?P 10)"
    by (rule entries_written.more_entries [OF e1 m(1) _ m(2) wb]) (simp add: adv skip)
  have s0: "skip_newlines (advance (?P 2)) = Some (Inr (?P 3))"
    by (simp add: adv skip)
  let ?s0 = "a_bound_state\<lparr>heap := heap a_bound_state @ [ODict []]\<rparr>"
  let ?s1 = "?s0\<lparr>heap := (heap ?s0)[length (heap a_bound_state) := ODict (dict_put [] (VStr ''a'') (VInt 1))]\<rparr>"
  let ?s2 = "?s1\<lparr>heap := (heap ?s1)[length (heap a_bound_state) := ODict (dict_put (dict_put [] (VStr ''a'') (VInt 1)) (VStr ''b'') (VInt 2))]\<rparr>"
  have hp: "heap a_bound_state = []"
    by (simp add: a_bound_state_def)
  have v2: "values_stored (eval (Suc 0)) 0 (length (heap a_bound_state)) [(''b'', NumberNode 2)] ?s1 ?s2"
    by (rule values_stored.entry [where v = "VInt 2" and ?s1.0 = ?s1, OF _ _ values_stored.no_entry])
       (simp_all add: ok_def obj_at_def hp)
  have v1: "values_stored (eval (Suc 0)) 0 (length (heap a_bound_state)) ?es ?s0 ?s2"
    by (rule values_stored.entry [where v = "VInt 1" and ?s1.0 = ?s0, OF _ _ v2])
       (simp_all add: ok_def obj_at_def hp)
  have x: "env_lookup a_bound_state 0 ''a'' = Some (VInt 7)"
    by code_simp
  have d: "dict_put (dict_put [] (VStr ''a'') (VInt 1)) (VStr ''b'') (VInt 2) = [(VStr ''a'', VInt 1), (VStr ''b'', VInt 2)]"
    by (simp add: dict_put_def dict_get_def key_eq_def as_int_def)
  note inst = object_keys_are_literal_strings [where p = "?P 2" and q = "?P 3" and pe = parse_literal
      and k = 0 and es = ?es and q' = "?P 10" and n = 0 and env = 0 and st = a_bound_state and st' = ?s2]
  from inst s0 m w have "parse_object_literal (length ?es + 0) parse_literal (?P 2)
      = Some (Inr (ObjectLiteralNode (map entry_node ?es), advance (?P 10)))"
    by blast
  moreover from inst v1 have "eval (Suc (Suc 0)) (ObjectLiteralNode (map entry_node ?es)) 0 a_bound_state
      = Some (Inr (VRef (length (heap a_bound_state))), ?s2)"
    by blast
  ultimately show ?thesis
    using x d hp by (simp add: entry_node_def adv del: eval.simps)
qed

section \<open>Frames are never removed\<close>

text \<open>
  No step of the evaluator shortens the list of frames: a frame that exists when a node
  is evaluated exists afterwards. The proof follows the structure of the evaluator.
\<close>

lemma keeps_framesD:
  "keeps_frames m \<Longrightarrow> m st = Some (r, st') \<Longrightarrow> length (envs st) \<le> length (envs st')"
  by (auto simp add: keeps_frames_def)

lemma keeps_framesI:
  "(\<And>st r st'. m st = Some (r, st') \<Longrightarrow> length (envs st) \<le> length (envs st')) \<Longrightarrow> keeps_frames m"
  by (auto simp add: keeps_frames_def)

lemma kf_ok: "keeps_frames (ok v)"
  by (simp add: keeps_frames_def ok_def)

lemma kf_throw: "keeps_frames (throw e)"
  by (simp add: keeps_frames_def throw_def)

lemma kf_bnd:
  assumes "keeps_frames m" and "\<And>v. keeps_frames (f v)"
  shows "keeps_frames (bnd m f)"
proof (rule keeps_framesI)
  fix st r st'
  assume a: "bnd m f st = Some (r, st')"
  show "length (envs st) \<le> length (envs st')"
  proof (cases "m st")
    case None
    with a show ?thesis by (simp add: bnd_def)
  next
    case (Some p)
    obtain x s1 where p: "p = (x, s1)" by (cases p)
    from Some p assms(1) have l1: "length (envs st) \<le> length (envs s1)"
      by (auto dest: keeps_framesD)
    show ?thesis
    proof (cases x)
      case (Inl e)
      with a Some p l1 show ?thesis by (simp add: bnd_def)
    next
      case (Inr v)
      with a Some p have "f v s1 = Some (r, st')" by (simp add: bnd_def)
      with assms(2) have "length (envs s1) \<le> length (envs st')"
        by (auto dest: keeps_framesD)
      with l1 show ?thesis by simp
    qed
  qed
qed

lemma kf_catch:
  assumes "keeps_frames m" and "\<And>e. keeps_frames (h e)"
  shows "keeps_frames (catch m h)"
proof (rule keeps_framesI)
  fix st r st'
  assume a: "catch m h st = Some (r, st')"
  show "length (envs st) \<le> length (envs st')"
  proof (cases "m st")
    case None
    with a show ?thesis by (simp add: catch_def)
  next
    case (Some p)
    obtain x s1 where p: "p = (x, s1)" by (cases p)
    from Some p assms(1) have l1: "length (envs st) \<le> length (envs s1)"
      by (auto dest: keeps_framesD)
    show ?thesis
    proof (cases x)
      case (Inr v)
      with a Some p l1 show ?thesis by (simp add: catch_def)
    next
      case (Inl e)
      with a Some p have "h e s1 = Some (r, st')" by (simp add: catch_def)
      with assms(2) have "length (envs s1) \<le> length (envs st')"
        by (auto dest: keeps_framesD)
      with l1 show ?thesis by simp
    qed
  qed
qed

lemma kf_none: "keeps_frames (\<lambda>st. None)"
  by (simp add: keeps_frames_def)

lemma kf_lift_opt: "keeps_frames (lift_opt x)"
  by (auto simp add: keeps_frames_def lift_opt_def split: option.splits)

lemma kf_env_get: "keeps_frames (env_get a name)"
  by (auto simp add: keeps_frames_def env_get_def split: option.splits)

lemma kf_env_set: "keeps_frames (env_set a name v)"
  by (auto simp add: keeps_frames_def env_set_def)

lemma kf_env_assign: "keeps_frames (env_assign a name v)"
  by (simp add: env_assign_def kf_env_set)

lemma kf_new_Environment: "keeps_frames (new_Environment p)"
  by (auto simp add: keeps_frames_def new_Environment_def)

lemma kf_alloc: "keeps_frames (alloc ob)"
  by (auto simp add: keeps_frames_def alloc_def)

lemma kf_put_obj: "keeps_frames (put_obj a ob)"
  by (auto simp add: keeps_frames_def put_obj_def)

lemma kf_print: "keeps_frames (print s)"
  by (auto simp add: keeps_frames_def print_def)

lemmas kf_basic = kf_ok kf_throw kf_none kf_lift_opt kf_env_get kf_env_set kf_env_assign
  kf_new_Environment kf_alloc kf_put_obj kf_print


lemmas run_defs = keeps_frames_def ok_def throw_def alloc_def put_obj_def env_set_def env_assign_def bnd_def

lemma kf_py_add: "keeps_frames (py_add x y)"
  by (auto simp add: run_defs py_add_def split: option.splits val.splits obj.splits)

lemma kf_py_sub: "keeps_frames (py_sub x y)"
  by (auto simp add: run_defs py_sub_def split: option.splits)

lemma kf_py_mul: "keeps_frames (py_mul x y)"
  by (auto simp add: run_defs py_mul_def split: option.splits val.splits obj.splits)

lemma kf_py_truediv: "keeps_frames (py_truediv x y)"
  by (auto simp add: run_defs py_truediv_def split: option.splits)

lemma kf_py_mod: "keeps_frames (py_mod x y)"
  by (auto simp add: run_defs py_mod_def split: option.splits val.splits if_splits)

lemma kf_py_pow: "keeps_frames (py_pow x y)"
  by (auto simp add: run_defs py_pow_def split: option.splits if_splits)

lemma kf_py_neg: "keeps_frames (py_neg x)"
  by (auto simp add: run_defs py_neg_def split: option.splits)

lemma kf_plus_op: "keeps_frames (plus_op x y)"
  using kf_py_add [of x y]
  by (auto simp add: keeps_frames_def plus_op_def ok_def split: if_splits)

lemma kf_div_op: "keeps_frames (div_op x y)"
  using kf_py_truediv [of x y]
  by (auto simp add: keeps_frames_def div_op_def throw_def split: if_splits)

lemma kf_wrap_TypeError: "keeps_frames (wrap_TypeError e)"
  by (auto simp add: run_defs wrap_TypeError_def split: exc.splits host_error.splits)

lemma kf_compare_op: "keeps_frames (compare_op f)"
  by (auto simp add: run_defs compare_op_def split: sum.splits)

lemma kf_eq_op: "keeps_frames (eq_op k neg x y)"
  by (auto simp add: run_defs eq_op_def split: option.splits)

lemma kf_dict_store: "keeps_frames (dict_store d key v)"
  by (auto simp add: run_defs dict_store_def split: option.splits val.splits obj.splits if_splits)

lemma kf_subscript: "keeps_frames (subscript t i)"
  by (auto simp add: run_defs subscript_def split: option.splits val.splits obj.splits sum.splits if_splits)

lemma kf_index_error: "keeps_frames (index_error p e)"
  by (auto simp add: run_defs index_error_def split: exc.splits host_error.splits)

lemma kf_store_subscript: "keeps_frames (store_subscript t i v)"
  by (auto simp add: run_defs store_subscript_def dict_store_def
      split: option.splits val.splits obj.splits sum.splits if_splits)

lemma kf_return_value: "keeps_frames (return_value e)"
  by (auto simp add: run_defs return_value_def split: exc.splits)

lemma kf_set_params: "keeps_frames (set_params ce ps)"
  by (induction ps) (auto intro!: kf_basic kf_bnd)

lemma kf_format: "keeps_frames (\<lambda>st. lift_opt (format_value k st v) st)"
  by (auto simp add: keeps_frames_def lift_opt_def split: option.splits)

lemma kf_eval_all:
  assumes ev: "\<And>node env. keeps_frames (ev node env)"
  shows "keeps_frames (eval_all ev xs env)"
  by (induction xs) (auto intro!: kf_bnd kf_basic ev)

lemma kf_object_pairs:
  assumes ev: "\<And>node env. keeps_frames (ev node env)"
  shows "keeps_frames (object_pairs ev ps env d)"
  by (induction ps) (auto intro!: kf_bnd kf_basic kf_dict_store ev)

lemma kf_fstring_parts:
  assumes ev: "\<And>node env. keeps_frames (ev node env)"
  shows "keeps_frames (fstring_parts k ev ps env)"
  by (induction ps) (auto intro!: kf_bnd kf_basic kf_format ev split: sum.splits)

lemma kf_call_function:
  assumes ev: "\<And>node env. keeps_frames (ev node env)"
  shows "keeps_frames (call_function ev fn args)"
  apply (rule keeps_framesI)
  apply (simp add: call_function_def split: val.splits option.splits obj.splits if_splits)
         apply (erule keeps_framesD [rotated],
                intro kf_bnd kf_catch kf_basic kf_set_params kf_return_value ev)+
  done

lemma kf_filter_loop:
  assumes ev: "\<And>node env. keeps_frames (ev node env)"
  shows "keeps_frames (filter_loop k ev fn a i res)"
proof (induction k arbitrary: i)
  case 0
  show ?case by (simp add: kf_none)
next
  case (Suc k)
  have step: "\<And>x v. keeps_frames (\<lambda>st'. if py_bool st' v then
                 (case obj_at st' res of
                    Some (OList rs) \<Rightarrow>
                      bnd (put_obj res (OList (rs @ [x]))) (\<lambda>u. filter_loop k ev fn a (Suc i) res) st'
                  | _ \<Rightarrow> None)
               else filter_loop k ev fn a (Suc i) res st')"
    apply (rule keeps_framesI)
    apply (simp split: if_splits option.splits obj.splits)
     apply (erule keeps_framesD [rotated], intro kf_bnd kf_basic Suc.IH)+
    done
  show ?case
    apply (rule keeps_framesI)
    apply (simp split: option.splits obj.splits if_splits)
        apply (erule keeps_framesD [rotated], intro kf_bnd kf_basic kf_call_function ev step)+
    done
qed

lemma kf_map_loop:
  assumes ev: "\<And>node env. keeps_frames (ev node env)"
  shows "keeps_frames (map_loop k ev fn a i acc)"
proof (induction k arbitrary: i acc)
  case 0
  show ?case by (simp add: kf_none)
next
  case (Suc k)
  show ?case
    apply (rule keeps_framesI)
    apply (simp split: option.splits obj.splits if_splits)
        apply (erule keeps_framesD [rotated], intro kf_bnd kf_basic kf_call_function ev Suc.IH)+
    done
qed

lemma kf_dict_method: "keeps_frames (dict_method obj kvs method args)"
  by (auto simp add: run_defs dict_method_def split: option.splits if_splits)

lemma kf_conversion: "keeps_frames (conversion obj method)"
  by (auto simp add: run_defs conversion_def Let_def split: sum.splits exc.splits host_error.splits if_splits)

lemma kf_string_method: "keeps_frames (string_method s method args)"
  by (auto simp add: run_defs string_method_def split: val.splits if_splits)

lemma kf_list_method:
  assumes ev: "\<And>node env. keeps_frames (ev node env)"
  shows "keeps_frames (list_method k ev a xs method args)"
  unfolding list_method_def
  by (auto intro!: kf_bnd kf_basic kf_filter_loop kf_map_loop ev split: option.splits val.splits)

lemma kf_call_method:
  assumes ev: "\<And>node env. keeps_frames (ev node env)"
  shows "keeps_frames (call_method k ev obj method args)"
  apply (rule keeps_framesI)
  apply (simp add: call_method_def split: val.splits option.splits obj.splits if_splits)
                      apply (erule keeps_framesD [rotated],
                             intro kf_basic kf_dict_method kf_conversion kf_string_method kf_list_method ev)+
  done

lemma kf_loop_body:
  assumes ev: "\<And>node env. keeps_frames (ev node env)" and again: "keeps_frames again"
  shows "keeps_frames (loop_body ev body env again)"
proof (rule keeps_framesI)
  fix st r st'
  assume a: "loop_body ev body env again st = Some (r, st')"
  then obtain x s1 where b: "ev body env st = Some (x, s1)"
    by (cases "ev body env st") (auto simp add: loop_body_def)
  with ev have l1: "length (envs st) \<le> length (envs s1)"
    by (auto dest: keeps_framesD)
  from a b have "st' = s1 \<or> again s1 = Some (r, st')"
    by (auto simp add: loop_body_def split: sum.splits exc.splits)
  with again l1 show "length (envs st) \<le> length (envs st')"
    by (auto dest: keeps_framesD)
qed

lemma kf_while_loop:
  assumes ev: "\<And>node env. keeps_frames (ev node env)"
  shows "keeps_frames (while_loop k ev c b env)"
proof (induction k)
  case 0
  show ?case by (simp add: kf_none)
next
  case (Suc k)
  have step: "\<And>cv. keeps_frames (\<lambda>st. if py_bool st cv
                 then loop_body ev b env (while_loop k ev c b env) st else ok VNone st)"
    apply (rule keeps_framesI)
    apply (simp split: if_splits)
     apply (erule keeps_framesD [rotated], intro kf_basic kf_loop_body ev Suc.IH)+
    done
  show ?case
    by (auto intro!: kf_bnd ev step)
qed

lemma kf_for_items:
  assumes ev: "\<And>node env. keeps_frames (ev node env)"
  shows "keeps_frames (for_items ev var body env items)"
  by (induction items) (auto intro!: kf_bnd kf_basic kf_loop_body ev)

lemma kf_for_list:
  assumes ev: "\<And>node env. keeps_frames (ev node env)"
  shows "keeps_frames (for_list k ev var body env a i)"
proof (induction k arbitrary: i)
  case 0
  show ?case by (simp add: kf_none)
next
  case (Suc k)
  show ?case
    apply (rule keeps_framesI)
    apply (simp split: option.splits obj.splits if_splits)
        apply (erule keeps_framesD [rotated], intro kf_bnd kf_basic kf_loop_body ev Suc.IH)+
    done
qed

lemma kf_for_dict:
  assumes ev: "\<And>node env. keeps_frames (ev node env)"
  shows "keeps_frames (for_dict k ev var body env a size0)"
proof (induction k)
  case 0
  show ?case
    apply (rule keeps_framesI)
    apply (simp split: option.splits obj.splits if_splits)
        apply (erule keeps_framesD [rotated], intro kf_basic)+
    done
next
  case (Suc k)
  show ?case
    apply (rule keeps_framesI)
    apply (simp split: option.splits obj.splits if_splits)
        apply (erule keeps_framesD [rotated], intro kf_bnd kf_basic kf_loop_body ev Suc.IH)+
    done
qed

lemma kf_eval_IfNode:
  assumes ev: "\<And>node env. keeps_frames (ev node env)"
  shows "keeps_frames (eval_IfNode ev c t e env)"
proof -
  have step: "\<And>cv. keeps_frames (\<lambda>st. if py_bool st cv then ev t env st
                 else (case e of Some e' \<Rightarrow> ev e' env st | None \<Rightarrow> ok VNone st))"
    apply (rule keeps_framesI)
    apply (simp split: if_splits option.splits)
      apply (erule keeps_framesD [rotated], intro kf_basic ev)+
    done
  show ?thesis
    unfolding eval_IfNode_def by (auto intro!: kf_bnd ev step)
qed

lemma kf_eval_ForRangeNode:
  assumes ev: "\<And>node env. keeps_frames (ev node env)"
  shows "keeps_frames (eval_ForRangeNode ev var s e stp rv body env)"
  unfolding eval_ForRangeNode_def
  by (auto intro!: kf_bnd kf_basic kf_for_items ev split: option.splits sum.splits)

lemma kf_eval_ForEachNode:
  assumes ev: "\<And>node env. keeps_frames (ev node env)"
  shows "keeps_frames (eval_ForEachNode k ev var it body env)"
proof -
  have step: "\<And>itv. keeps_frames (\<lambda>st.
       case itv of
         VStr s \<Rightarrow> for_items ev var body env (map (\<lambda>c. VStr [c]) s) st
       | VRef a \<Rightarrow>
           (case obj_at st a of
              Some (OList xs) \<Rightarrow> for_list k ev var body env a 0 st
            | Some (ODict kvs) \<Rightarrow> for_dict (length kvs) ev var body env a (length kvs) st
            | _ \<Rightarrow> throw (RuntimeError (Text ([CHR 0x27] @ py_str st itv @ [CHR 0x27] @ '' is not iterable''))) st)
       | _ \<Rightarrow> throw (RuntimeError (Text ([CHR 0x27] @ py_str st itv @ [CHR 0x27] @ '' is not iterable''))) st)"
    apply (rule keeps_framesI)
    apply (simp split: val.splits option.splits obj.splits)
             apply (erule keeps_framesD [rotated], intro kf_basic kf_for_items kf_for_list kf_for_dict ev)+
    done
  show ?thesis
    unfolding eval_ForEachNode_def by (auto intro!: kf_bnd ev step)
qed

lemma kf_eval_FunctionCallNode:
  assumes ev: "\<And>node env. keeps_frames (ev node env)"
  shows "keeps_frames (eval_FunctionCallNode ev name args env)"
proof -
  have len: "\<And>vs. keeps_frames (\<lambda>st.
            case (case hd vs of VRef a \<Rightarrow> obj_at st a | _ \<Rightarrow> None) of
              Some (OList xs) \<Rightarrow> ok (VInt (int (length xs))) st
            | _ \<Rightarrow>
              (case hd vs of
                 VStr s \<Rightarrow> ok (VInt (int (length s))) st
               | _ \<Rightarrow> throw (RuntimeError (Text (''len() not supported for '' @ type_name st (hd vs)))) st))"
    by (auto simp add: run_defs split: val.splits option.splits obj.splits)
  have call: "\<And>vs fn. keeps_frames (\<lambda>st.
           if is_function st fn then call_function ev fn vs st
           else throw (RuntimeError (Text ([CHR 0x27] @ name @ [CHR 0x27] @ '' is not a function''))) st)"
    apply (rule keeps_framesI)
    apply (simp split: if_splits)
     apply (erule keeps_framesD [rotated], intro kf_basic kf_call_function ev)+
    done
  show ?thesis
    unfolding eval_FunctionCallNode_def
    by (auto intro!: kf_bnd kf_basic kf_eval_all ev len call)
qed

lemma kf_eval_BinOpNode:
  assumes ev: "\<And>node env. keeps_frames (ev node env)"
  shows "keeps_frames (eval_BinOpNode k ev l op r env)"
proof -
  have b: "\<And>x y. keeps_frames (\<lambda>st. ok (VBool (py_bool st x \<and> py_bool st y)) st)"
          "\<And>x y. keeps_frames (\<lambda>st. ok (VBool (py_bool st x \<or> py_bool st y)) st)"
    by (auto simp add: run_defs)
  show ?thesis
    unfolding eval_BinOpNode_def
    by (auto intro!: kf_bnd kf_catch kf_basic kf_plus_op kf_py_sub kf_py_mul kf_div_op kf_py_mod kf_py_pow
        kf_eq_op kf_compare_op kf_wrap_TypeError ev b)
qed

lemma kf_eval_CompoundAssignNode:
  assumes ev: "\<And>node env. keeps_frames (ev node env)"
  shows "keeps_frames (eval_CompoundAssignNode ev name op v env)"
  unfolding eval_CompoundAssignNode_def
  by (auto intro!: kf_bnd kf_catch kf_basic kf_plus_op kf_py_sub kf_py_mul kf_div_op kf_wrap_TypeError ev)

lemma kf_eval_UnaryOpNode:
  assumes ev: "\<And>node env. keeps_frames (ev node env)"
  shows "keeps_frames (eval_UnaryOpNode ev op operand env)"
proof -
  have b: "\<And>x. keeps_frames (\<lambda>st. ok (VBool (\<not> py_bool st x)) st)"
    by (auto simp add: run_defs)
  show ?thesis
    unfolding eval_UnaryOpNode_def
    by (auto intro!: kf_bnd kf_basic kf_py_neg ev b)
qed

lemma kf_block_loop:
  assumes ev: "\<And>node env. keeps_frames (ev node env)"
  shows "keeps_frames (block_loop ev ss env r)"
  by (induction ss arbitrary: r) (auto intro!: kf_bnd kf_basic ev)

lemma kf_eval_node:
  assumes ev: "\<And>node env. keeps_frames (ev node env)"
  shows "keeps_frames (eval_node ev k node env)"
proof (cases node)
  case (MethodCallNode ob m as)
  then show ?thesis
    by (auto simp add: eval_MethodCallNode_def intro!: kf_bnd kf_eval_all kf_call_method ev)
qed (auto simp add: eval_ListNode_def eval_ObjectLiteralNode_def eval_FStringNode_def
      eval_IndexGetNode_def eval_IndexSetNode_def eval_IdentifierNode_def eval_AssignNode_def
      eval_SayNode_def eval_WhileNode_def eval_BreakNode_def eval_ContinueNode_def
      eval_LambdaNode_def eval_FunctionDefNode_def eval_ReturnNode_def eval_BlockNode_def
    intro!: kf_bnd kf_catch kf_basic kf_eval_all kf_object_pairs kf_fstring_parts kf_subscript
      kf_store_subscript kf_index_error kf_format kf_while_loop kf_eval_IfNode kf_eval_ForRangeNode
      kf_eval_ForEachNode kf_eval_FunctionCallNode kf_eval_BinOpNode kf_eval_CompoundAssignNode
      kf_eval_UnaryOpNode kf_block_loop ev)

lemma kf_eval: "keeps_frames (eval n node env)"
proof (induction n arbitrary: node env)
  case 0
  show ?case by (simp add: kf_none)
next
  case (Suc n)
  show ?case by (simp add: kf_eval_node Suc.IH)
qed

lemma eval_keeps_frames:
  "eval n node env st = Some (r, st') \<Longrightarrow> length (envs st) \<le> length (envs st')"
  using kf_eval by (rule keeps_framesD)

section \<open>Loop variables\<close>

lemma map_of_upd_var: "map_of (upd_var name v vs) name = Some v"
proof (cases "name \<in> fst ` set vs")
  case True
  then have "map_of (map (\<lambda>(k, w). if k = name then (k, v) else (k, w)) vs) name = Some v"
    by (induction vs) auto
  with True show ?thesis by (simp add: upd_var_def)
next
  case False
  then have "map_of vs name = None"
    by (simp add: map_of_eq_None_iff)
  with False show ?thesis by (simp add: upd_var_def map_add_def)
qed

lemma loop_body_cases:
  assumes "loop_body ev body env again st = Some (Inr r, st')"
  obtains (stopped) "ev body env st = Some (Inl BreakSignal, st')"
        | (went_on) x st2 where "ev body env st = Some (x, st2)" "x \<noteq> Inl BreakSignal" "again st2 = Some (Inr r, st')"
  using assms
  by (auto simp add: loop_body_def split: option.splits sum.splits exc.splits)

lemma env_set_bind_var: "env_set env var item st = Some (Inr (), bind_var st env var item)"
  by (simp add: env_set_def bind_var_def)

lemma bind_var_frames: "length (envs (bind_var st env var item)) = length (envs st)"
  by (simp add: bind_var_def)

lemma bind_var_frame_var:
  "env < length (envs st) \<Longrightarrow> frame_var (bind_var st env var item) env var = Some item"
  by (simp add: bind_var_def frame_var_def map_of_upd_var)

lemma last_iterationI:
  assumes mono: "\<And>s r s'. ev body env s = Some (r, s') \<Longrightarrow> length (envs s) \<le> length (envs s')"
      and "env < length (envs s)" and "ev body env (bind_var s env var x) = Some (res, st')"
  shows "last_iteration ev body env var x s res st'"
proof -
  from mono [OF assms(3)] assms(2) have "env < length (envs st')"
    by (simp add: bind_var_frames)
  with assms(2,3) show ?thesis
    by (simp add: last_iteration_def bind_var_frame_var env_set_bind_var)
qed

lemma for_items_last:
  assumes mono: "\<And>s r s'. ev body env s = Some (r, s') \<Longrightarrow> length (envs s) \<le> length (envs s')"
  shows "env < length (envs st) \<Longrightarrow> items \<noteq> [] \<Longrightarrow>
         for_items ev var body env items st = Some (Inr r, st') \<Longrightarrow>
         \<exists>pre x post s res. items = pre @ x # post \<and> (post = [] \<or> res = Inl BreakSignal)
            \<and> last_iteration ev body env var x s res st'"
proof (induction items arbitrary: st)
  case Nil
  then show ?case by simp
next
  case (Cons item rest)
  from Cons.prems(3)
  have lb: "loop_body ev body env (for_items ev var body env rest) (bind_var st env var item) = Some (Inr r, st')"
    by (simp add: bnd_def env_set_bind_var)
  from lb show ?case
  proof (cases rule: loop_body_cases)
    case stopped
    with mono Cons.prems(1) have "last_iteration ev body env var item st (Inl BreakSignal) st'"
      by (intro last_iterationI)
    then show ?thesis by blast
  next
    case (went_on x st2)
    from mono Cons.prems(1) went_on(1) have li: "last_iteration ev body env var item st x st2"
      by (intro last_iterationI)
    show ?thesis
    proof (cases "rest = []")
      case True
      with went_on(3) have "st' = st2" by (simp add: ok_def)
      with li True show ?thesis by blast
    next
      case False
      from li have "env < length (envs st2)"
        by (simp add: last_iteration_def)
      from Cons.IH [OF this False went_on(3)] obtain pre y post s res where
        "rest = pre @ y # post" "post = [] \<or> res = Inl BreakSignal" "last_iteration ev body env var y s res st'"
        by blast
      then have "item # rest = (item # pre) @ y # post \<and> (post = [] \<or> res = Inl BreakSignal)
                  \<and> last_iteration ev body env var y s res st'"
        by simp
      then show ?thesis by blast
    qed
  qed
qed

lemma for_list_last:
  assumes mono: "\<And>s r s'. ev body env s = Some (r, s') \<Longrightarrow> length (envs s) \<le> length (envs s')"
  shows "env < length (envs st) \<Longrightarrow> obj_at st a = Some (OList xs) \<Longrightarrow> i < length xs \<Longrightarrow>
         for_list k ev var body env a i st = Some (Inr r, st') \<Longrightarrow>
         \<exists>j s ys res. obj_at s a = Some (OList ys) \<and> i \<le> j \<and> j < length ys
            \<and> (res = Inl BreakSignal \<or> (\<forall>zs. obj_at st' a = Some (OList zs) \<longrightarrow> length zs \<le> Suc j))
            \<and> last_iteration ev body env var (ys ! j) s res st'"
proof (induction k arbitrary: st i xs)
  case 0
  then show ?case by simp
next
  case (Suc k)
  from Suc.prems(2,3,4)
  have lb: "loop_body ev body env (for_list k ev var body env a (Suc i)) (bind_var st env var (xs ! i)) = Some (Inr r, st')"
    by (simp add: bnd_def env_set_bind_var)
  from lb show ?case
  proof (cases rule: loop_body_cases)
    case stopped
    with mono Suc.prems(1) have "last_iteration ev body env var (xs ! i) st (Inl BreakSignal) st'"
      by (intro last_iterationI)
    with Suc.prems(2,3) show ?thesis by blast
  next
    case (went_on x st2)
    from mono Suc.prems(1) went_on(1) have li: "last_iteration ev body env var (xs ! i) st x st2"
      by (intro last_iterationI)
    then have fr: "env < length (envs st2)"
      by (simp add: last_iteration_def)
    show ?thesis
    proof (cases "\<exists>zs. obj_at st2 a = Some (OList zs) \<and> Suc i < length zs")
      case True
      then obtain zs where zs: "obj_at st2 a = Some (OList zs)" "Suc i < length zs"
        by blast
      from Suc.IH [OF fr zs went_on(3)] obtain j s ys res where
        "obj_at s a = Some (OList ys)" "Suc i \<le> j" "j < length ys"
        "res = Inl BreakSignal \<or> (\<forall>zs. obj_at st' a = Some (OList zs) \<longrightarrow> length zs \<le> Suc j)"
        "last_iteration ev body env var (ys ! j) s res st'"
        by blast
      then have "obj_at s a = Some (OList ys) \<and> i \<le> j \<and> j < length ys
            \<and> (res = Inl BreakSignal \<or> (\<forall>zs. obj_at st' a = Some (OList zs) \<longrightarrow> length zs \<le> Suc j))
            \<and> last_iteration ev body env var (ys ! j) s res st'"
        by simp
      then show ?thesis by blast
    next
      case False
      have "st' = st2"
      proof (cases k)
        case 0
        with went_on(3) show ?thesis by simp
      next
        case (Suc k')
        with went_on(3) False show ?thesis
          by (auto simp add: ok_def split: option.splits obj.splits if_splits)
      qed
      with False have "\<forall>zs. obj_at st' a = Some (OList zs) \<longrightarrow> length zs \<le> Suc i"
        by auto
      with li \<open>st' = st2\<close> Suc.prems(2,3) show ?thesis by blast
    qed
  qed
qed

lemma for_dict_last:
  assumes mono: "\<And>s r s'. ev body env s = Some (r, s') \<Longrightarrow> length (envs s) \<le> length (envs s')"
  shows "env < length (envs st) \<Longrightarrow> obj_at st a = Some (ODict kvs) \<Longrightarrow> remaining < size0 \<Longrightarrow>
         for_dict (Suc remaining) ev var body env a size0 st = Some (Inr r, st') \<Longrightarrow>
         \<exists>j s kvs' res. obj_at s a = Some (ODict kvs') \<and> length kvs' = size0 \<and> j < size0
            \<and> (res = Inl BreakSignal \<or> (\<forall>kvs2. obj_at st' a = Some (ODict kvs2) \<longrightarrow> Suc j = size0))
            \<and> last_iteration ev body env var (fst (kvs' ! j)) s res st'"
proof (induction remaining arbitrary: st kvs)
  case 0
  let ?i = "size0 - Suc 0"
  from "0.prems"(2,3,4) have sz: "length kvs = size0"
    by (auto simp add: throw_def split: if_splits)
  from "0.prems"(2,3,4) sz
  have lb: "loop_body ev body env (for_dict 0 ev var body env a size0) (bind_var st env var (fst (kvs ! ?i))) = Some (Inr r, st')"
    by (simp add: bnd_def env_set_bind_var)
  from "0.prems"(3) have i: "?i < size0" "Suc ?i = size0" by simp_all
  from lb show ?case
  proof (cases rule: loop_body_cases)
    case stopped
    with mono "0.prems"(1) have "last_iteration ev body env var (fst (kvs ! ?i)) st (Inl BreakSignal) st'"
      by (intro last_iterationI)
    with "0.prems"(2) sz i show ?thesis by blast
  next
    case (went_on x st2)
    from mono "0.prems"(1) went_on(1) have li: "last_iteration ev body env var (fst (kvs ! ?i)) st x st2"
      by (intro last_iterationI)
    from went_on(3) have "st' = st2"
      by (auto simp add: ok_def throw_def split: option.splits obj.splits if_splits)
    with li "0.prems"(2) sz i show ?thesis by blast
  qed
next
  case (Suc remaining)
  let ?i = "size0 - Suc (Suc remaining)"
  from Suc.prems(2,4) have sz: "length kvs = size0"
    by (auto simp add: throw_def split: if_splits)
  from Suc.prems(3) have i: "?i < size0" by simp
  from Suc.prems(2,4) sz i
  have lb: "loop_body ev body env (for_dict (Suc remaining) ev var body env a size0) (bind_var st env var (fst (kvs ! ?i))) = Some (Inr r, st')"
    by (simp add: bnd_def env_set_bind_var)
  from lb show ?case
  proof (cases rule: loop_body_cases)
    case stopped
    with mono Suc.prems(1) have "last_iteration ev body env var (fst (kvs ! ?i)) st (Inl BreakSignal) st'"
      by (intro last_iterationI)
    with Suc.prems(2) sz i show ?thesis by blast
  next
    case (went_on x st2)
    from mono Suc.prems(1) went_on(1) have li: "last_iteration ev body env var (fst (kvs ! ?i)) st x st2"
      by (intro last_iterationI)
    then have fr: "env < length (envs st2)"
      by (simp add: last_iteration_def)
    from Suc.prems(3) have rem: "remaining < size0" by simp
    show ?thesis
    proof (cases "\<exists>kvs2. obj_at st2 a = Some (ODict kvs2)")
      case True
      then obtain kvs2 where "obj_at st2 a = Some (ODict kvs2)"
        by blast
      from Suc.IH [OF fr this rem went_on(3)] show ?thesis .
    next
      case False
      with went_on(3) have "st' = st2"
        by (auto simp add: ok_def split: option.splits obj.splits)
      with False have "\<forall>kvs2. obj_at st' a = Some (ODict kvs2) \<longrightarrow> Suc ?i = size0"
        by simp
      with li \<open>st' = st2\<close> Suc.prems(2) sz i show ?thesis by blast
    qed
  qed
qed

text \<open>
  Claim C9 says that after the loop the variable holds the value of the last iteration.
  The body runs in the same frame, so a body that assigns to the variable leaves its own
  value there: after \<^verbatim>\<open>for (i in 1..2) { i = 10 }\<close> the frame binds \<open>i\<close> to 10.
\<close>

theorem loop_body_rebinds_variable_counterexample:
  "eval 5 (ForRangeNode ''i'' (NumberNode 1) (NumberNode 2) None False
             (BlockNode [AssignNode ''i'' (NumberNode 10)])) global_env initial_state
     = Some (Inr VNone,
         initial_state\<lparr>envs :=
           [\<lparr>vars = [(''__builtin_len__'', VBool True), (''__builtin_help__'', VBool True), (''i'', VInt 10)],
             parent = None\<rparr>]\<rparr>)"
  by code_simp

text \<open>
  Claim C9 as amended: for-range and for-each loops bind the loop variable directly in
  the current frame; the loop makes no scope of its own. Each iteration stores its item
  under the variable's name in that frame, over any earlier binding, and runs the body in
  the same frame; the loop ends in the state in which the last run of the body ends. So
  after a loop that completes having run at least once, the variable is bound in that
  frame to the item of the last iteration that ran, unless the body rebound the variable
  during that iteration. The last iteration is the one for the last item, or the one that
  was left by \<open>break\<close>; for a list it is the one after which the list holds no further
  element, since the loop follows the list as the body changes it. The four parts are the
  for-range loop (any step, either direction) and the for-each loop over a string, a list
  and a map. The frame is required to exist when the loop starts.
\<close>

theorem loop_variable_is_bound_in_current_frame:
  assumes frame: "env < length (envs st)"
  shows
  "(eval n startnode env st = Some (Inr sv, st1) \<and> eval n endnode env st1 = Some (Inr ev, st2)
      \<and> (case stepnode of Some sn \<Rightarrow> eval n sn env | None \<Rightarrow> ok (VInt 1)) st2 = Some (Inr stepv, st3)
      \<and> is_number sv \<and> is_number ev \<and> py_int stepv = Inr stp \<and> stp \<noteq> 0
      \<and> items = map VInt (if reverse then py_range (num sv) (num ev - 1) (- \<bar>stp\<bar>)
                            else py_range (num sv) (num ev + 1) \<bar>stp\<bar>)
      \<and> items \<noteq> []
      \<and> eval (Suc n) (ForRangeNode var startnode endnode stepnode reverse body) env st = Some (Inr r, st')
    \<longrightarrow> (\<exists>pre x post s res. items = pre @ x # post \<and> (post = [] \<or> res = Inl BreakSignal)
           \<and> last_iteration (eval n) body env var x s res st'))
   \<and> (eval n iterable env st = Some (Inr (VStr str), st1) \<and> str \<noteq> []
      \<and> eval (Suc n) (ForEachNode var iterable body) env st = Some (Inr r, st')
    \<longrightarrow> (\<exists>pre c post s res. str = pre @ c # post \<and> (post = [] \<or> res = Inl BreakSignal)
           \<and> last_iteration (eval n) body env var (VStr [c]) s res st'))
   \<and> (eval n iterable env st = Some (Inr (VRef a), st1) \<and> obj_at st1 a = Some (OList xs) \<and> xs \<noteq> []
      \<and> eval (Suc n) (ForEachNode var iterable body) env st = Some (Inr r, st')
    \<longrightarrow> (\<exists>j s ys res. obj_at s a = Some (OList ys) \<and> j < length ys
           \<and> (res = Inl BreakSignal \<or> (\<forall>zs. obj_at st' a = Some (OList zs) \<longrightarrow> length zs \<le> Suc j))
           \<and> last_iteration (eval n) body env var (ys ! j) s res st'))
   \<and> (eval n iterable env st = Some (Inr (VRef a), st1) \<and> obj_at st1 a = Some (ODict kvs) \<and> kvs \<noteq> []
      \<and> eval (Suc n) (ForEachNode var iterable body) env st = Some (Inr r, st')
    \<longrightarrow> (\<exists>j s kvs' res. obj_at s a = Some (ODict kvs') \<and> length kvs' = length kvs \<and> j < length kvs
           \<and> (res = Inl BreakSignal \<or> (\<forall>kvs2. obj_at st' a = Some (ODict kvs2) \<longrightarrow> Suc j = length kvs))
           \<and> last_iteration (eval n) body env var (fst (kvs' ! j)) s res st'))"
proof (intro conjI impI)
  have mono: "\<And>s r s'. eval n body env s = Some (r, s') \<Longrightarrow> length (envs s) \<le> length (envs s')"
    by (rule eval_keeps_frames)
  {
    assume h: "eval n startnode env st = Some (Inr sv, st1) \<and> eval n endnode env st1 = Some (Inr ev, st2)
      \<and> (case stepnode of Some sn \<Rightarrow> eval n sn env | None \<Rightarrow> ok (VInt 1)) st2 = Some (Inr stepv, st3)
      \<and> is_number sv \<and> is_number ev \<and> py_int stepv = Inr stp \<and> stp \<noteq> 0
      \<and> items = map VInt (if reverse then py_range (num sv) (num ev - 1) (- \<bar>stp\<bar>)
                            else py_range (num sv) (num ev + 1) \<bar>stp\<bar>)
      \<and> items \<noteq> []
      \<and> eval (Suc n) (ForRangeNode var startnode endnode stepnode reverse body) env st = Some (Inr r, st')"
    then have e: "eval n startnode env st = Some (Inr sv, st1)" "eval n endnode env st1 = Some (Inr ev, st2)"
        "(case stepnode of Some sn \<Rightarrow> eval n sn env | None \<Rightarrow> ok (VInt 1)) st2 = Some (Inr stepv, st3)"
        "is_number sv" "is_number ev" "py_int stepv = Inr stp" "stp \<noteq> 0"
      and it: "items = map VInt (if reverse then py_range (num sv) (num ev - 1) (- \<bar>stp\<bar>)
                            else py_range (num sv) (num ev + 1) \<bar>stp\<bar>)"
      and ne: "items \<noteq> []"
      and run: "eval (Suc n) (ForRangeNode var startnode endnode stepnode reverse body) env st = Some (Inr r, st')"
      by blast+
    have "length (envs st) \<le> length (envs st1)"
      using e(1) by (rule eval_keeps_frames)
    moreover have "length (envs st1) \<le> length (envs st2)"
      using e(2) by (rule eval_keeps_frames)
    moreover have "length (envs st2) \<le> length (envs st3)"
      using e(3) by (cases stepnode) (auto simp add: ok_def dest: eval_keeps_frames)
    ultimately have fr: "env < length (envs st3)"
      using frame by simp
    have "eval (Suc n) (ForRangeNode var startnode endnode stepnode reverse body) env st
            = for_items (eval n) var body env items st3"
      using e by (simp add: eval_ForRangeNode_def bnd_def it split del: if_split)
    with run have "for_items (eval n) var body env items st3 = Some (Inr r, st')"
      by simp
    with mono fr ne
    show "\<exists>pre x post s res. items = pre @ x # post \<and> (post = [] \<or> res = Inl BreakSignal)
           \<and> last_iteration (eval n) body env var x s res st'"
      by (rule for_items_last)
  }
  {
    assume h: "eval n iterable env st = Some (Inr (VStr str), st1) \<and> str \<noteq> []
      \<and> eval (Suc n) (ForEachNode var iterable body) env st = Some (Inr r, st')"
    then have f: "for_items (eval n) var body env (map (\<lambda>c. VStr [c]) str) st1 = Some (Inr r, st')"
      by (clarsimp simp add: eval_ForEachNode_def bnd_def)
    from h have "length (envs st) \<le> length (envs st1)"
      by (blast dest: eval_keeps_frames)
    with frame have fr: "env < length (envs st1)"
      by simp
    from h have ne: "map (\<lambda>c. VStr [c]) str \<noteq> []"
      by simp
    from mono fr ne f
    have "\<exists>pre x post s res. map (\<lambda>c. VStr [c]) str = pre @ x # post \<and> (post = [] \<or> res = Inl BreakSignal)
           \<and> last_iteration (eval n) body env var x s res st'"
      by (rule for_items_last)
    then obtain pre x post s res where
      p: "map (\<lambda>c. VStr [c]) str = pre @ x # post" "post = [] \<or> res = Inl BreakSignal"
         "last_iteration (eval n) body env var x s res st'"
      by blast
    from p(1) obtain pre' c post' where
      "str = pre' @ c # post'" "pre = map (\<lambda>c. VStr [c]) pre'" "x = VStr [c]" "post = map (\<lambda>c. VStr [c]) post'"
      by (auto simp add: map_eq_append_conv map_eq_Cons_conv)
    with p(2,3) have "str = pre' @ c # post' \<and> (post' = [] \<or> res = Inl BreakSignal)
           \<and> last_iteration (eval n) body env var (VStr [c]) s res st'"
      by auto
    then show "\<exists>pre c post s res. str = pre @ c # post \<and> (post = [] \<or> res = Inl BreakSignal)
           \<and> last_iteration (eval n) body env var (VStr [c]) s res st'"
      by blast
  }
  {
    assume h: "eval n iterable env st = Some (Inr (VRef a), st1) \<and> obj_at st1 a = Some (OList xs) \<and> xs \<noteq> []
      \<and> eval (Suc n) (ForEachNode var iterable body) env st = Some (Inr r, st')"
    then have f: "for_list n (eval n) var body env a 0 st1 = Some (Inr r, st')"
      by (clarsimp simp add: eval_ForEachNode_def bnd_def)
    from h have "length (envs st) \<le> length (envs st1)"
      by (blast dest: eval_keeps_frames)
    with frame have fr: "env < length (envs st1)"
      by simp
    from h have o: "obj_at st1 a = Some (OList xs)" and ne: "0 < length xs"
      by simp_all
    from mono fr o ne f
    have "\<exists>j s ys res. obj_at s a = Some (OList ys) \<and> 0 \<le> j \<and> j < length ys
           \<and> (res = Inl BreakSignal \<or> (\<forall>zs. obj_at st' a = Some (OList zs) \<longrightarrow> length zs \<le> Suc j))
           \<and> last_iteration (eval n) body env var (ys ! j) s res st'"
      by (rule for_list_last)
    then show "\<exists>j s ys res. obj_at s a = Some (OList ys) \<and> j < length ys
           \<and> (res = Inl BreakSignal \<or> (\<forall>zs. obj_at st' a = Some (OList zs) \<longrightarrow> length zs \<le> Suc j))
           \<and> last_iteration (eval n) body env var (ys ! j) s res st'"
      by blast
  }
  {
    assume h: "eval n iterable env st = Some (Inr (VRef a), st1) \<and> obj_at st1 a = Some (ODict kvs) \<and> kvs \<noteq> []
      \<and> eval (Suc n) (ForEachNode var iterable body) env st = Some (Inr r, st')"
    then have f: "for_dict (length kvs) (eval n) var body env a (length kvs) st1 = Some (Inr r, st')"
      by (clarsimp simp add: eval_ForEachNode_def bnd_def)
    from h obtain m where m: "length kvs = Suc m" by (cases kvs) auto
    from f m have f': "for_dict (Suc m) (eval n) var body env a (length kvs) st1 = Some (Inr r, st')" by simp
    from h have "length (envs st) \<le> length (envs st1)"
      by (blast dest: eval_keeps_frames)
    with frame have fr: "env < length (envs st1)"
      by simp
    from h have o: "obj_at st1 a = Some (ODict kvs)"
      by simp
    from m have lt: "m < length kvs" by simp
    from mono fr o lt f'
    have "\<exists>j s kvs' res. obj_at s a = Some (ODict kvs') \<and> length kvs' = length kvs \<and> j < length kvs
           \<and> (res = Inl BreakSignal \<or> (\<forall>kvs2. obj_at st' a = Some (ODict kvs2) \<longrightarrow> Suc j = length kvs))
           \<and> last_iteration (eval n) body env var (fst (kvs' ! j)) s res st'"
      by (rule for_dict_last)
    then show "\<exists>j s kvs' res. obj_at s a = Some (ODict kvs') \<and> length kvs' = length kvs \<and> j < length kvs
           \<and> (res = Inl BreakSignal \<or> (\<forall>kvs2. obj_at st' a = Some (ODict kvs2) \<longrightarrow> Suc j = length kvs))
           \<and> last_iteration (eval n) body env var (fst (kvs' ! j)) s res st'"
      by blast
  }
qed

theorem loop_variable_is_bound_in_current_frame_witness:
  "eval (Suc 5) (ForRangeNode ''i'' (NumberNode 1) (NumberNode 5) None False break_at_three) 0 initial_state
      = Some (Inr VNone,
          initial_state\<lparr>envs :=
            [\<lparr>vars = [(''__builtin_len__'', VBool True), (''__builtin_help__'', VBool True), (''i'', VInt 3)],
              parent = None\<rparr>]\<rparr>)
   \<and> (\<exists>pre x post s res. [VInt 1, VInt 2, VInt 3, VInt 4, VInt 5] = pre @ x # post
         \<and> (post = [] \<or> res = Inl BreakSignal)
         \<and> last_iteration (eval 5) break_at_three 0 ''i'' x s res
             (initial_state\<lparr>envs :=
                [\<lparr>vars = [(''__builtin_len__'', VBool True), (''__builtin_help__'', VBool True), (''i'', VInt 3)],
                  parent = None\<rparr>]\<rparr>))
   \<and> frame_var
        (initial_state\<lparr>envs :=
            [\<lparr>vars = [(''__builtin_len__'', VBool True), (''__builtin_help__'', VBool True), (''i'', VInt 3)],
              parent = None\<rparr>]\<rparr>) 0 ''i''
      = Some (VInt 3)
   \<and> eval (Suc 4) (ForEachNode ''x'' (IdentifierNode ''l'') wrap_item) 0 list_state
      = Some (Inr VNone,
          \<lparr>envs = [\<lparr>vars = [(''l'', VRef 0), (''x'', VInt 2), (''y'', VRef 2)], parent = None\<rparr>],
           heap = [OList [VInt 1, VInt 2], OList [VInt 1], OList [VInt 2]], stdout = []\<rparr>)
   \<and> (\<exists>j s ys res. obj_at s 0 = Some (OList ys) \<and> j < length ys
         \<and> (res = Inl BreakSignal
            \<or> (\<forall>zs. obj_at \<lparr>envs = [\<lparr>vars = [(''l'', VRef 0), (''x'', VInt 2), (''y'', VRef 2)], parent = None\<rparr>],
                              heap = [OList [VInt 1, VInt 2], OList [VInt 1], OList [VInt 2]], stdout = []\<rparr> 0
                       = Some (OList zs) \<longrightarrow> length zs \<le> Suc j))
         \<and> last_iteration (eval 4) wrap_item 0 ''x'' (ys ! j) s res
             \<lparr>envs = [\<lparr>vars = [(''l'', VRef 0), (''x'', VInt 2), (''y'', VRef 2)], parent = None\<rparr>],
              heap = [OList [VInt 1, VInt 2], OList [VInt 1], OList [VInt 2]], stdout = []\<rparr>)
   \<and> frame_var
        \<lparr>envs = [\<lparr>vars = [(''l'', VRef 0), (''x'', VInt 2), (''y'', VRef 2)], parent = None\<rparr>],
         heap = [OList [VInt 1, VInt 2], OList [VInt 1], OList [VInt 2]], stdout = []\<rparr> 0 ''x''
      = Some (VInt 2)"
proof -
  let ?S1 = "initial_state\<lparr>envs :=
            [\<lparr>vars = [(''__builtin_len__'', VBool True), (''__builtin_help__'', VBool True), (''i'', VInt 3)],
              parent = None\<rparr>]\<rparr>"
  let ?S2 = "\<lparr>envs = [\<lparr>vars = [(''l'', VRef 0), (''x'', VInt 2), (''y'', VRef 2)], parent = None\<rparr>],
           heap = [OList [VInt 1, VInt 2], OList [VInt 1], OList [VInt 2]], stdout = []\<rparr>"
  have r1: "eval (Suc 5) (ForRangeNode ''i'' (NumberNode 1) (NumberNode 5) None False break_at_three) 0 initial_state
             = Some (Inr VNone, ?S1)"
    by code_simp
  have s1: "eval 5 (NumberNode 1) 0 initial_state = Some (Inr (VInt 1), initial_state)"
    by code_simp
  have s2: "eval 5 (NumberNode 5) 0 initial_state = Some (Inr (VInt 5), initial_state)"
    by code_simp
  have its: "map VInt (py_range 1 6 1) = [VInt 1, VInt 2, VInt 3, VInt 4, VInt 5]"
    by code_simp
  have f1: "0 < length (envs initial_state)"
    by (simp add: initial_state_def)
  have ex1: "\<exists>pre x post s res. [VInt 1, VInt 2, VInt 3, VInt 4, VInt 5] = pre @ x # post
         \<and> (post = [] \<or> res = Inl BreakSignal) \<and> last_iteration (eval 5) break_at_three 0 ''i'' x s res ?S1"
    using loop_variable_is_bound_in_current_frame [OF f1, where n = 5 and startnode = "NumberNode 1"
        and endnode = "NumberNode 5" and stepnode = None and reverse = False and ?st1.0 = initial_state
        and ?st2.0 = initial_state and ?st3.0 = initial_state and sv = "VInt 1" and ev = "VInt 5"
        and stepv = "VInt 1" and stp = 1 and items = "[VInt 1, VInt 2, VInt 3, VInt 4, VInt 5]"
        and var = "''i''" and body = break_at_three and r = VNone and st' = ?S1]
      r1 s1 s2 its
    by (simp add: is_number_def as_int_def num_def py_int_def ok_def del: eval.simps)
  have r2: "eval (Suc 4) (ForEachNode ''x'' (IdentifierNode ''l'') wrap_item) 0 list_state = Some (Inr VNone, ?S2)"
    by code_simp
  have i2: "eval 4 (IdentifierNode ''l'') 0 list_state = Some (Inr (VRef 0), list_state)"
    by code_simp
  have o2: "obj_at list_state 0 = Some (OList [VInt 1, VInt 2])"
    by code_simp
  have f2: "0 < length (envs list_state)"
    by (simp add: list_state_def)
  have ex2: "\<exists>j s ys res. obj_at s 0 = Some (OList ys) \<and> j < length ys
         \<and> (res = Inl BreakSignal \<or> (\<forall>zs. obj_at ?S2 0 = Some (OList zs) \<longrightarrow> length zs \<le> Suc j))
         \<and> last_iteration (eval 4) wrap_item 0 ''x'' (ys ! j) s res ?S2"
    using loop_variable_is_bound_in_current_frame [OF f2, where n = 4 and iterable = "IdentifierNode ''l''"
        and a = 0 and ?st1.0 = list_state and xs = "[VInt 1, VInt 2]"
        and var = "''x''" and body = wrap_item and r = VNone and st' = ?S2]
      r2 i2 o2
    by (simp del: eval.simps)
  have b1: "frame_var ?S1 0 ''i'' = Some (VInt 3)"
    by code_simp
  have b2: "frame_var ?S2 0 ''x'' = Some (VInt 2)"
    by code_simp
  show ?thesis
    apply (intro conjI)
         apply (rule r1)
        apply (rule ex1)
       apply (rule b1)
      apply (rule r2)
     apply (rule ex2)
    apply (rule b2)
    done
qed

end
